theory Spec2Isabelle
  imports Main
begin

section \<open>Python values, exceptions and the REST client\<close>

text \<open>
  The bodies that \<open>response.json()\<close> returns are Python objects built from JSON: \<open>None\<close>,
  booleans, numbers, strings, lists and dictionaries with string keys. A dictionary is an
  association list in insertion order; a lookup takes the first binding of the key. A
  number is kept as its literal: the program never computes with one.
\<close>

datatype json =
    JNull
  | JBool bool
  | JNum string
  | JStr string
  | JArr "json list"
  | JObj "(string \<times> json) list"

datatype key = SKey string | IKey int

text \<open>
  The exceptions of the run, all of them instances of Python's \<open>Exception\<close>. The two
  classes of \<open>sempy.fabric.exceptions\<close> carry their message; \<open>OtherException\<close> stands for
  any further \<open>Exception\<close> subclass that the client library raises (an HTTP error of
  \<open>raise_for_status\<close>, a connection error, an undecodable body).
\<close>

datatype exn =
    FabricHTTPException string
  | WorkspaceNotFoundException string
  | KeyError key
  | IndexError
  | TypeError
  | AttributeError
  | ValueError
  | OverflowError
  | OtherException string

text \<open>\<open>obj[k]\<close> with a string key.\<close>

fun getitem :: "json \<Rightarrow> string \<Rightarrow> exn + json" where
  "getitem (JObj kvs) k =
     (case map_of kvs k of None \<Rightarrow> Inl (KeyError (SKey k)) | Some v \<Rightarrow> Inr v)"
| "getitem (JArr xs) k = Inl TypeError"
| "getitem (JStr s) k = Inl TypeError"
| "getitem (JNum n) k = Inl TypeError"
| "getitem (JBool b) k = Inl TypeError"
| "getitem JNull k = Inl TypeError"

text \<open>\<open>obj[0]\<close>. The keys of a dictionary decoded from JSON are strings, so \<open>0\<close> is never one.\<close>

fun getitem0 :: "json \<Rightarrow> exn + json" where
  "getitem0 (JArr []) = Inl IndexError"
| "getitem0 (JArr (x # xs)) = Inr x"
| "getitem0 (JStr []) = Inl IndexError"
| "getitem0 (JStr (c # cs)) = Inr (JStr [c])"
| "getitem0 (JObj kvs) = Inl (KeyError (IKey 0))"
| "getitem0 (JNum n) = Inl TypeError"
| "getitem0 (JBool b) = Inl TypeError"
| "getitem0 JNull = Inl TypeError"

text \<open>\<open>obj.get(k, default)\<close>: a method of dictionaries only.\<close>

fun dict_get :: "json \<Rightarrow> string \<Rightarrow> json \<Rightarrow> exn + json" where
  "dict_get (JObj kvs) k dflt = (case map_of kvs k of None \<Rightarrow> Inr dflt | Some v \<Rightarrow> Inr v)"
| "dict_get (JArr xs) k dflt = Inl AttributeError"
| "dict_get (JStr s) k dflt = Inl AttributeError"
| "dict_get (JNum n) k dflt = Inl AttributeError"
| "dict_get (JBool b) k dflt = Inl AttributeError"
| "dict_get JNull k dflt = Inl AttributeError"

text \<open>
  \<open>for x in obj\<close>: a list yields its elements, a dictionary its keys, a string its
  characters; nothing else is iterable.
\<close>

fun iterate :: "json \<Rightarrow> exn + json list" where
  "iterate (JArr xs) = Inr xs"
| "iterate (JObj kvs) = Inr (map (\<lambda>kv. JStr (fst kv)) kvs)"
| "iterate (JStr s) = Inr (map (\<lambda>c. JStr [c]) s)"
| "iterate (JNum n) = Inl TypeError"
| "iterate (JBool b) = Inl TypeError"
| "iterate JNull = Inl TypeError"

text \<open>
  A response of the client: what \<open>raise_for_status()\<close> raises, if anything, and what
  \<open>json()\<close> returns or raises.
\<close>

record response =
  raise_for_status :: "exn option"
  json_body :: "exn + json"

text \<open>
  The client, one field per request of the program. A call may itself raise. The status
  request is repeated, and the server may answer each repetition differently: its last
  argument counts the earlier status reads of the run.
\<close>

record client =
  get_lakehouse :: "string \<Rightarrow> string \<Rightarrow> exn + response"
  post_refresh :: "json \<Rightarrow> exn + response"
  get_batch :: "json \<Rightarrow> json \<Rightarrow> nat \<Rightarrow> exn + response"

record LakehouseSyncManager =
  workspace_id :: string
  lakehouse_id :: string
  client :: client

text \<open>
  The three statements that follow every request:
  \<open>response.raise_for_status(); data = response.json()\<close>.
\<close>

definition checked_json :: "exn + response \<Rightarrow> exn + json" where
  "checked_json r =
     (case r of
        Inl e \<Rightarrow> Inl e
      | Inr response \<Rightarrow>
          (case raise_for_status response of
             Some e \<Rightarrow> Inl e
           | None \<Rightarrow> json_body response))"

section \<open>Dates and times: \<open>datetime\<close> and \<open>pytz\<close>\<close>

text \<open>
  The proleptic Gregorian calendar of Python's \<open>datetime\<close> module: the helpers
  \<open>_is_leap\<close>, \<open>_days_before_year\<close>, \<open>_days_in_month\<close>, \<open>_days_before_month\<close>, \<open>_ymd2ord\<close>
  and \<open>_ord2ymd\<close>, on Python's unbounded integers. Day 1 is 0001-01-01.
\<close>

definition MAXORDINAL :: int where
  "MAXORDINAL = 3652059"

definition DAYS_IN_MONTH :: "int list" where
  "DAYS_IN_MONTH = [-1, 31, 28, 31, 30, 31, 30, 31, 31, 30, 31, 30, 31]"

definition DAYS_BEFORE_MONTH :: "int list" where
  "DAYS_BEFORE_MONTH = [-1, 0, 31, 59, 90, 120, 151, 181, 212, 243, 273, 304, 334]"

definition is_leap :: "int \<Rightarrow> bool" where
  "is_leap year \<longleftrightarrow> year mod 4 = 0 \<and> (year mod 100 \<noteq> 0 \<or> year mod 400 = 0)"

definition days_before_year :: "int \<Rightarrow> int" where
  "days_before_year year = (let y = year - 1 in y * 365 + y div 4 - y div 100 + y div 400)"

definition days_in_month :: "int \<Rightarrow> int \<Rightarrow> int" where
  "days_in_month year month =
     (if month = 2 \<and> is_leap year then 29 else DAYS_IN_MONTH ! nat month)"

definition days_before_month :: "int \<Rightarrow> int \<Rightarrow> int" where
  "days_before_month year month =
     DAYS_BEFORE_MONTH ! nat month + (if month > 2 \<and> is_leap year then 1 else 0)"

definition ymd2ord :: "int \<Rightarrow> int \<Rightarrow> int \<Rightarrow> int" where
  "ymd2ord year month day = days_before_year year + days_before_month year month + day"

definition ord2ymd :: "int \<Rightarrow> int \<times> int \<times> int" where
  "ord2ymd ordinal =
     (let n = ordinal - 1;
          n400 = n div 146097; n = n mod 146097;
          n100 = n div 36524; n = n mod 36524;
          n4 = n div 1461; n = n mod 1461;
          n1 = n div 365; n = n mod 365;
          year = n400 * 400 + 1 + n100 * 100 + n4 * 4 + n1
      in if n1 = 4 \<or> n100 = 4 then (year - 1, 12, 31)
         else
           let leapyear = (n1 = 3 \<and> (n4 \<noteq> 24 \<or> n100 = 3));
               month = (n + 50) div 32;
               preceding = DAYS_BEFORE_MONTH ! nat month + (if month > 2 \<and> leapyear then 1 else 0)
           in if preceding > n
              then
                let month' = month - 1;
                    preceding' = preceding - (DAYS_IN_MONTH ! nat month' + (if month' = 2 \<and> leapyear then 1 else 0))
                in (year, month', n - preceding' + 1)
              else (year, month, n - preceding + 1))"

text \<open>
  A \<open>datetime\<close> object with whole seconds, and the offset and name of its \<open>tzinfo\<close>.
\<close>

record datetime =
  year :: int
  month :: int
  day :: int
  hour :: int
  minute :: int
  second :: int
  utcoffset :: int
  tzname :: string

text \<open>The constructor's range checks (\<open>_check_date_fields\<close>, \<open>_check_time_fields\<close>).\<close>

definition datetime_new :: "int \<Rightarrow> int \<Rightarrow> int \<Rightarrow> int \<Rightarrow> int \<Rightarrow> int \<Rightarrow> int \<Rightarrow> string \<Rightarrow> exn + datetime" where
  "datetime_new y m d hh mm ss off name =
     (if 1 \<le> y \<and> y \<le> 9999 \<and> 1 \<le> m \<and> m \<le> 12 \<and> 1 \<le> d \<and> d \<le> days_in_month y m
         \<and> 0 \<le> hh \<and> hh \<le> 23 \<and> 0 \<le> mm \<and> mm \<le> 59 \<and> 0 \<le> ss \<and> ss \<le> 59
      then Inr \<lparr>year = y, month = m, day = d, hour = hh, minute = mm, second = ss,
                utcoffset = off, tzname = name\<rparr>
      else Inl ValueError)"

definition digit_val :: "char \<Rightarrow> int option" where
  "digit_val c = map_of (zip ''0123456789'' [0, 1, 2, 3, 4, 5, 6, 7, 8, 9]) c"

fun parse_digits :: "int \<Rightarrow> string \<Rightarrow> int option" where
  "parse_digits acc [] = Some acc"
| "parse_digits acc (c # cs) =
     (case digit_val c of None \<Rightarrow> None | Some d \<Rightarrow> parse_digits (acc * 10 + d) cs)"

text \<open>
  \<open>datetime.fromisoformat\<close> on the strings the program passes to it, which all end in the
  appended \<open>+00:00\<close>. In front of that offset the model reads the date \<open>YYYY-MM-DD\<close>, any
  one character, and the time as \<open>HH\<close>, \<open>HH:MM\<close> or \<open>HH:MM:SS\<close>, a missing part of the
  time being 0: the forms that every CPython from 3.7 on reads, all with this meaning.
  On every other string the model raises \<open>ValueError\<close>. That is what CPython does for a
  string that is no timestamp, such as the \<open>N/A+00:00\<close> of the reporter. CPython reads
  some further shapes, not the same in all its versions: a date without a time (the
  result is then a naive \<open>datetime\<close>, which \<open>astimezone\<close> takes in the zone of the host)
  and, from 3.11 on, the basic format \<open>YYYYMMDD\<close>, week dates, a fraction after a comma and
  one stray character in front of the offset. The model leaves them out, and no statement
  below rests on the model refusing a string that CPython reads.
\<close>

definition fromisoformat :: "string \<Rightarrow> exn + datetime" where
  "fromisoformat s =
     (if 19 \<le> length s \<and> s ! 4 = CHR ''-'' \<and> s ! 7 = CHR ''-''
         \<and> (length s = 19 \<and> drop 13 s = ''+00:00''
            \<or> length s = 22 \<and> s ! 13 = CHR '':'' \<and> drop 16 s = ''+00:00''
            \<or> length s = 25 \<and> s ! 13 = CHR '':'' \<and> s ! 16 = CHR '':'' \<and> drop 19 s = ''+00:00'')
      then
        (let t = take (length s - 6) s
         in case (parse_digits 0 (take 4 t), parse_digits 0 (take 2 (drop 5 t)),
                  parse_digits 0 (take 2 (drop 8 t)), parse_digits 0 (take 2 (drop 11 t)),
                  parse_digits 0 (take 2 (drop 14 t)), parse_digits 0 (take 2 (drop 17 t))) of
              (Some y, Some m, Some d, Some hh, Some mm, Some ss) \<Rightarrow>
                datetime_new y m d hh mm ss 0 ''UTC''
            | _ \<Rightarrow> Inl ValueError)
      else Inl ValueError)"

text \<open>
  \<open>datetime + timedelta(seconds=k)\<close>: through the ordinal of the date, with the range
  check of \<open>datetime.__add__\<close>; the \<open>tzinfo\<close> is kept.
\<close>

definition dt_add :: "datetime \<Rightarrow> int \<Rightarrow> exn + datetime" where
  "dt_add dt k =
     (let total = hour dt * 3600 + minute dt * 60 + second dt + k;
          days = ymd2ord (year dt) (month dt) (day dt) + total div 86400;
          secs = total mod 86400
      in if 0 < days \<and> days \<le> MAXORDINAL
         then (case ord2ymd days of
                 (y, m, d) \<Rightarrow>
                   Inr (dt\<lparr>year := y, month := m, day := d, hour := secs div 3600,
                           minute := secs mod 3600 div 60, second := secs mod 3600 mod 60\<rparr>))
         else Inl OverflowError)"

text \<open>Seconds from 1970-01-01T00:00:00 to the fields of a \<open>datetime\<close>, read as they stand.\<close>

definition epoch_seconds :: "datetime \<Rightarrow> int" where
  "epoch_seconds dt =
     (ymd2ord (year dt) (month dt) (day dt) - 719163) * 86400
       + hour dt * 3600 + minute dt * 60 + second dt"

text \<open>
  The zone \<open>pytz.timezone('Europe/Madrid')\<close>: the table that \<open>pytz\<close> builds from the
  compiled zone file, one row per transition with the UTC instant of the transition (in
  seconds from 1970-01-01), the offset from UTC in force from then on (in seconds,
  rounded by \<open>pytz\<close> to whole minutes) and the abbreviation. \<open>pytz\<close> reads the 32-bit
  block of the file, whose transitions run from 1901-12-13 to 2037, and puts the local
  mean time in front, from \<open>datetime.min\<close>.
\<close>

definition madrid_tz :: "(int \<times> int \<times> string) list" where
  "madrid_tz =
   [((-62135596800), (-900), ''LMT''), ((-2147483648), 0, ''WET''), ((-1631926800), 3600, ''WEST''),
    ((-1616889600), 0, ''WET''), ((-1601168400), 3600, ''WEST''), ((-1585353600), 0, ''WET''),
    ((-1442451600), 3600, ''WEST''), ((-1427673600), 0, ''WET''), ((-1379293200), 3600, ''WEST''),
    ((-1364774400), 0, ''WET''), ((-1348448400), 3600, ''WEST''), ((-1333324800), 0, ''WET''),
    ((-1316390400), 3600, ''WEST''), ((-1301270400), 0, ''WET''), ((-1284339600), 3600, ''WEST''),
    ((-1269820800), 0, ''WET''), ((-1026954000), 3600, ''WEST''), ((-1017619200), 0, ''WET''),
    ((-1001898000), 3600, ''WEST''), ((-999482400), 7200, ''WEMT''), ((-986090400), 3600, ''WEST''),
    ((-954115200), 0, ''WET''), ((-940208400), 3600, ''CET''), ((-873079200), 7200, ''CEST''),
    ((-862621200), 3600, ''CET''), ((-842839200), 7200, ''CEST''), ((-828320400), 3600, ''CET''),
    ((-811389600), 7200, ''CEST''), ((-796870800), 3600, ''CET''), ((-779940000), 7200, ''CEST''),
    ((-765421200), 3600, ''CET''), ((-748490400), 7200, ''CEST''), ((-733971600), 3600, ''CET''),
    ((-652327200), 7200, ''CEST''), ((-639018000), 3600, ''CET''), (135122400, 7200, ''CEST''),
    (150246000, 3600, ''CET''), (166572000, 7200, ''CEST''), (181695600, 3600, ''CET''),
    (196812000, 7200, ''CEST''), (212540400, 3600, ''CET''), (228866400, 7200, ''CEST''),
    (243990000, 3600, ''CET''), (260326800, 7200, ''CEST''), (276051600, 3600, ''CET''),
    (291776400, 7200, ''CEST''), (307501200, 3600, ''CET''), (323830800, 7200, ''CEST''),
    (338950800, 3600, ''CET''), (354675600, 7200, ''CEST''), (370400400, 3600, ''CET''),
    (386125200, 7200, ''CEST''), (401850000, 3600, ''CET''), (417574800, 7200, ''CEST''),
    (433299600, 3600, ''CET''), (449024400, 7200, ''CEST''), (465354000, 3600, ''CET''),
    (481078800, 7200, ''CEST''), (496803600, 3600, ''CET''), (512528400, 7200, ''CEST''),
    (528253200, 3600, ''CET''), (543978000, 7200, ''CEST''), (559702800, 3600, ''CET''),
    (575427600, 7200, ''CEST''), (591152400, 3600, ''CET''), (606877200, 7200, ''CEST''),
    (622602000, 3600, ''CET''), (638326800, 7200, ''CEST''), (654656400, 3600, ''CET''),
    (670381200, 7200, ''CEST''), (686106000, 3600, ''CET''), (701830800, 7200, ''CEST''),
    (717555600, 3600, ''CET''), (733280400, 7200, ''CEST''), (749005200, 3600, ''CET''),
    (764730000, 7200, ''CEST''), (780454800, 3600, ''CET''), (796179600, 7200, ''CEST''),
    (811904400, 3600, ''CET''), (828234000, 7200, ''CEST''), (846378000, 3600, ''CET''),
    (859683600, 7200, ''CEST''), (877827600, 3600, ''CET''), (891133200, 7200, ''CEST''),
    (909277200, 3600, ''CET''), (922582800, 7200, ''CEST''), (941331600, 3600, ''CET''),
    (954032400, 7200, ''CEST''), (972781200, 3600, ''CET''), (985482000, 7200, ''CEST''),
    (1004230800, 3600, ''CET''), (1017536400, 7200, ''CEST''), (1035680400, 3600, ''CET''),
    (1048986000, 7200, ''CEST''), (1067130000, 3600, ''CET''), (1080435600, 7200, ''CEST''),
    (1099184400, 3600, ''CET''), (1111885200, 7200, ''CEST''), (1130634000, 3600, ''CET''),
    (1143334800, 7200, ''CEST''), (1162083600, 3600, ''CET''), (1174784400, 7200, ''CEST''),
    (1193533200, 3600, ''CET''), (1206838800, 7200, ''CEST''), (1224982800, 3600, ''CET''),
    (1238288400, 7200, ''CEST''), (1256432400, 3600, ''CET''), (1269738000, 7200, ''CEST''),
    (1288486800, 3600, ''CET''), (1301187600, 7200, ''CEST''), (1319936400, 3600, ''CET''),
    (1332637200, 7200, ''CEST''), (1351386000, 3600, ''CET''), (1364691600, 7200, ''CEST''),
    (1382835600, 3600, ''CET''), (1396141200, 7200, ''CEST''), (1414285200, 3600, ''CET''),
    (1427590800, 7200, ''CEST''), (1445734800, 3600, ''CET''), (1459040400, 7200, ''CEST''),
    (1477789200, 3600, ''CET''), (1490490000, 7200, ''CEST''), (1509238800, 3600, ''CET''),
    (1521939600, 7200, ''CEST''), (1540688400, 3600, ''CET''), (1553994000, 7200, ''CEST''),
    (1572138000, 3600, ''CET''), (1585443600, 7200, ''CEST''), (1603587600, 3600, ''CET''),
    (1616893200, 7200, ''CEST''), (1635642000, 3600, ''CET''), (1648342800, 7200, ''CEST''),
    (1667091600, 3600, ''CET''), (1679792400, 7200, ''CEST''), (1698541200, 3600, ''CET''),
    (1711846800, 7200, ''CEST''), (1729990800, 3600, ''CET''), (1743296400, 7200, ''CEST''),
    (1761440400, 3600, ''CET''), (1774746000, 7200, ''CEST''), (1792890000, 3600, ''CET''),
    (1806195600, 7200, ''CEST''), (1824944400, 3600, ''CET''), (1837645200, 7200, ''CEST''),
    (1856394000, 3600, ''CET''), (1869094800, 7200, ''CEST''), (1887843600, 3600, ''CET''),
    (1901149200, 7200, ''CEST''), (1919293200, 3600, ''CET''), (1932598800, 7200, ''CEST''),
    (1950742800, 3600, ''CET''), (1964048400, 7200, ''CEST''), (1982797200, 3600, ''CET''),
    (1995498000, 7200, ''CEST''), (2014246800, 3600, ''CET''), (2026947600, 7200, ''CEST''),
    (2045696400, 3600, ''CET''), (2058397200, 7200, ''CEST''), (2077146000, 3600, ''CET''),
    (2090451600, 7200, ''CEST''), (2108595600, 3600, ''CET''), (2121901200, 7200, ''CEST''),
    (2140045200, 3600, ''CET'')]"

text \<open>\<open>bisect.bisect_right\<close> on a sorted list: the number of elements not above \<open>x\<close>.\<close>

definition bisect_right :: "int list \<Rightarrow> int \<Rightarrow> nat" where
  "bisect_right ts x = length (takeWhile (\<lambda>t. t \<le> x) ts)"

text \<open>
  \<open>DstTzInfo.fromutc\<close> of \<open>pytz\<close>: the row in force at the UTC time \<open>dt\<close> is the last one
  whose transition is not after it (the first row when there is none); its offset is
  added and its \<open>tzinfo\<close> attached. \<open>pytz\<close> compares \<open>datetime\<close> objects, that is, instants.
\<close>

definition fromutc :: "(int \<times> int \<times> string) list \<Rightarrow> datetime \<Rightarrow> exn + datetime" where
  "fromutc tz dt =
     (let idx = max 0 (int (bisect_right (map fst tz) (epoch_seconds dt)) - 1);
          inf = snd (tz ! nat idx)
      in case dt_add dt (fst inf) of
           Inl e \<Rightarrow> Inl e
         | Inr local \<Rightarrow> Inr (local\<lparr>utcoffset := fst inf, tzname := snd inf\<rparr>))"

text \<open>\<open>datetime.astimezone\<close> of an aware \<open>datetime\<close>: to UTC first, then the zone's \<open>fromutc\<close>.\<close>

definition astimezone :: "(int \<times> int \<times> string) list \<Rightarrow> datetime \<Rightarrow> exn + datetime" where
  "astimezone tz self =
     (case dt_add self (- utcoffset self) of
        Inl e \<Rightarrow> Inl e
      | Inr utc \<Rightarrow> fromutc tz utc)"

definition digit_char :: "int \<Rightarrow> char" where
  "digit_char d = ''0123456789'' ! nat d"

definition pad2 :: "int \<Rightarrow> string" where
  "pad2 n = [digit_char (n div 10), digit_char (n mod 10)]"

function decimal :: "int \<Rightarrow> string" where
  "decimal n = (if n < 10 then [digit_char n] else decimal (n div 10) @ [digit_char (n mod 10)])"
  by pat_completeness auto
termination
  by (relation "measure nat") auto

declare decimal.simps [simp del]

text \<open>
  \<open>strftime('%Y-%m-%d %H:%M:%S %Z')\<close>. On the Linux hosts of the program the C library
  writes \<open>%Y\<close> without padding, which shows for years before 1000 only.
\<close>

definition strftime :: "datetime \<Rightarrow> string" where
  "strftime dt =
     decimal (year dt) @ ''-'' @ pad2 (month dt) @ ''-'' @ pad2 (day dt) @ '' ''
       @ pad2 (hour dt) @ '':'' @ pad2 (minute dt) @ '':'' @ pad2 (second dt) @ '' ''
       @ tzname dt"

section \<open>The Time Localizer\<close>

definition convert_to_spain :: "json \<Rightarrow> exn + string" where
  "convert_to_spain utc_time_str =
     (case utc_time_str of
        JNull \<Rightarrow> Inr ''N/A''
      | JStr s \<Rightarrow>
          (let utc_time_str' = takeWhile (\<lambda>c. c \<noteq> CHR ''.'') s @ ''+00:00''
           in case fromisoformat utc_time_str' of
                Inl e \<Rightarrow> Inl e
              | Inr utc_time \<Rightarrow>
                  (case astimezone madrid_tz utc_time of
                     Inl e \<Rightarrow> Inl e
                   | Inr local \<Rightarrow> Inr (strftime local)))
      | _ \<Rightarrow> Inl AttributeError)"

section \<open>The stages of a run\<close>

definition fetch_sql_endpoint_id :: "LakehouseSyncManager \<Rightarrow> exn + json" where
  "fetch_sql_endpoint_id self =
     (case checked_json (get_lakehouse (client self) (workspace_id self) (lakehouse_id self)) of
        Inl e \<Rightarrow> Inl e
      | Inr lakehouse_info \<Rightarrow>
          (case getitem lakehouse_info ''properties'' of
             Inl e \<Rightarrow> Inl e
           | Inr properties \<Rightarrow>
               (case getitem properties ''sqlEndpointProperties'' of
                  Inl e \<Rightarrow> Inl e
                | Inr endpoint \<Rightarrow> getitem endpoint ''id'')))"

definition initiate_sync :: "LakehouseSyncManager \<Rightarrow> json \<Rightarrow> exn + json \<times> json" where
  "initiate_sync self sql_endpoint_id =
     (case checked_json (post_refresh (client self) sql_endpoint_id) of
        Inl e \<Rightarrow> Inl e
      | Inr data \<Rightarrow>
          (case getitem data ''batchId'' of
             Inl e \<Rightarrow> Inl e
           | Inr batch_id \<Rightarrow>
               (case getitem data ''progressState'' of
                  Inl e \<Rightarrow> Inl e
                | Inr progress_state \<Rightarrow> Inr (batch_id, progress_state))))"

text \<open>
  What the poller does, in order: \<open>Sleep d\<close> is \<open>time.sleep(d)\<close>, \<open>Status_read n\<close> the
  status request number \<open>n\<close> of the run, counted from 0.
\<close>

datatype event = Sleep nat | Status_read nat

text \<open>The body of status read \<open>n\<close>, after \<open>raise_for_status\<close>.\<close>

definition status_read :: "LakehouseSyncManager \<Rightarrow> json \<Rightarrow> json \<Rightarrow> nat \<Rightarrow> exn + json" where
  "status_read self sql_endpoint_id batch_id n =
     checked_json (get_batch (client self) sql_endpoint_id batch_id n)"

text \<open>
  The \<open>while\<close> loop of \<open>poll_sync_status\<close>, entered with \<open>progress_state == 'inProgress'\<close>: the
  function is one pass through the body followed by the test. It has no bound, so it is
  a partial function: \<open>None\<close> is a loop that never ends. \<open>n\<close> counts the passes made and
  \<open>evs\<close> records them.
\<close>

partial_function (option) poll_loop ::
  "LakehouseSyncManager \<Rightarrow> json \<Rightarrow> json \<Rightarrow> nat \<Rightarrow> event list \<Rightarrow> (event list \<times> (exn + json)) option" where
  "poll_loop self sql_endpoint_id batch_id n evs =
     (case status_read self sql_endpoint_id batch_id n of
        Inl e \<Rightarrow> Some (evs @ [Sleep 1, Status_read n], Inl e)
      | Inr status_data \<Rightarrow>
          (case getitem status_data ''progressState'' of
             Inl e \<Rightarrow> Some (evs @ [Sleep 1, Status_read n], Inl e)
           | Inr progress_state \<Rightarrow>
               if progress_state = JStr ''inProgress''
               then poll_loop self sql_endpoint_id batch_id (Suc n) (evs @ [Sleep 1, Status_read n])
               else Some (evs @ [Sleep 1, Status_read n], Inr status_data)))"

definition poll_sync_status ::
  "LakehouseSyncManager \<Rightarrow> json \<Rightarrow> json \<Rightarrow> (event list \<times> (exn + json)) option" where
  "poll_sync_status self sql_endpoint_id batch_id = poll_loop self sql_endpoint_id batch_id 0 []"

text \<open>
  Three notions to speak about the poller: the \<open>progressState\<close> that status read \<open>n\<close>
  yields (or the exception of the read), what the loop holds after a pass that reads it,
  and the record of \<open>j\<close> passes that start with read \<open>n\<close>.
\<close>

definition progress_at :: "LakehouseSyncManager \<Rightarrow> json \<Rightarrow> json \<Rightarrow> nat \<Rightarrow> exn + json" where
  "progress_at self sql_endpoint_id batch_id n =
     (case status_read self sql_endpoint_id batch_id n of
        Inl e \<Rightarrow> Inl e
      | Inr status_data \<Rightarrow> getitem status_data ''progressState'')"

definition read_result :: "LakehouseSyncManager \<Rightarrow> json \<Rightarrow> json \<Rightarrow> nat \<Rightarrow> exn + json" where
  "read_result self sql_endpoint_id batch_id n =
     (case status_read self sql_endpoint_id batch_id n of
        Inl e \<Rightarrow> Inl e
      | Inr status_data \<Rightarrow>
          (case getitem status_data ''progressState'' of
             Inl e \<Rightarrow> Inl e
           | Inr progress_state \<Rightarrow> Inr status_data))"

definition cycles :: "nat \<Rightarrow> nat \<Rightarrow> event list" where
  "cycles n j = concat (map (\<lambda>k. [Sleep 1, Status_read k]) [n..<n + j])"

text \<open>One element of \<open>table_details\<close>; the values of the dictionary display are computed in order.\<close>

record table_detail =
  tableName :: json
  lastSuccessfulUpdate :: string
  tableSyncState :: json
  sqlSyncState :: json

definition table_detail_of :: "json \<Rightarrow> exn + table_detail" where
  "table_detail_of table =
     (case getitem table ''tableName'' of
        Inl e \<Rightarrow> Inl e
      | Inr name \<Rightarrow>
          (case dict_get table ''lastSuccessfulUpdate'' (JStr ''N/A'') of
             Inl e \<Rightarrow> Inl e
           | Inr last_update \<Rightarrow>
               (case convert_to_spain last_update of
                  Inl e \<Rightarrow> Inl e
                | Inr localized \<Rightarrow>
                    (case getitem table ''tableSyncState'' of
                       Inl e \<Rightarrow> Inl e
                     | Inr table_state \<Rightarrow>
                         (case getitem table ''sqlSyncState'' of
                            Inl e \<Rightarrow> Inl e
                          | Inr sql_state \<Rightarrow>
                              Inr \<lparr>tableName = name, lastSuccessfulUpdate = localized,
                                   tableSyncState = table_state, sqlSyncState = sql_state\<rparr>)))))"

text \<open>A list comprehension: the elements in order, ended by the first exception.\<close>

fun comprehension :: "('a \<Rightarrow> exn + 'b) \<Rightarrow> 'a list \<Rightarrow> exn + 'b list" where
  "comprehension f [] = Inr []"
| "comprehension f (x # xs) =
     (case f x of
        Inl e \<Rightarrow> Inl e
      | Inr y \<Rightarrow> (case comprehension f xs of Inl e \<Rightarrow> Inl e | Inr ys \<Rightarrow> Inr (y # ys)))"

text \<open>
  What a run shows: the lines it prints, each the four fields of one \<open>table_detail\<close> in the
  fixed layout of the f-string, and the records it logs. The logging level is \<open>WARNING\<close>,
  so errors and warnings are both emitted; a record is kept as its kind and the value
  formatted into its message.
\<close>

datatype diagnostic =
    Error_Fabric_HTTP exn
  | Error_Workspace_not_found exn
  | Error_unexpected exn
  | Error_Sync_failed json
  | Warning_Unexpected_state json

record report =
  printed :: "table_detail list"
  logged :: "diagnostic list"

text \<open>
  Lines 105 to 123: the result is classified and reported. All of \<open>table_details\<close> is
  built before the first line is printed, so an exception leaves nothing printed.
\<close>

definition process_result :: "json \<Rightarrow> exn + report" where
  "process_result status_data =
     (case getitem status_data ''progressState'' of
        Inl e \<Rightarrow> Inl e
      | Inr state \<Rightarrow>
          if state = JStr ''success''
          then
            (case getitem status_data ''operationInformation'' of
               Inl e \<Rightarrow> Inl e
             | Inr operations \<Rightarrow>
                 (case getitem0 operations of
                    Inl e \<Rightarrow> Inl e
                  | Inr operation \<Rightarrow>
                      (case getitem operation ''progressDetail'' of
                         Inl e \<Rightarrow> Inl e
                       | Inr detail \<Rightarrow>
                           (case getitem detail ''tablesSyncStatus'' of
                              Inl e \<Rightarrow> Inl e
                            | Inr tables_sync_status \<Rightarrow>
                                (case iterate tables_sync_status of
                                   Inl e \<Rightarrow> Inl e
                                 | Inr tables \<Rightarrow>
                                     (case comprehension table_detail_of tables of
                                        Inl e \<Rightarrow> Inl e
                                      | Inr table_details \<Rightarrow>
                                          Inr \<lparr>printed = table_details, logged = []\<rparr>))))))
          else
            (case getitem status_data ''progressState'' of
               Inl e \<Rightarrow> Inl e
             | Inr state' \<Rightarrow>
                 if state' = JStr ''failure''
                 then Inr \<lparr>printed = [], logged = [Error_Sync_failed status_data]\<rparr>
                 else
                   (case getitem status_data ''progressState'' of
                      Inl e \<Rightarrow> Inl e
                    | Inr state'' \<Rightarrow>
                        Inr \<lparr>printed = [], logged = [Warning_Unexpected_state state'']\<rparr>)))"

text \<open>The \<open>try\<close> block: the four stages in sequence, ended by the first exception.\<close>

definition try_block :: "LakehouseSyncManager \<Rightarrow> (event list \<times> (exn + report)) option" where
  "try_block self =
     (case fetch_sql_endpoint_id self of
        Inl e \<Rightarrow> Some ([], Inl e)
      | Inr sql_endpoint_id \<Rightarrow>
          (case initiate_sync self sql_endpoint_id of
             Inl e \<Rightarrow> Some ([], Inl e)
           | Inr (batch_id, progress_state) \<Rightarrow>
               (case poll_sync_status self sql_endpoint_id batch_id of
                  None \<Rightarrow> None
                | Some (evs, Inl e) \<Rightarrow> Some (evs, Inl e)
                | Some (evs, Inr status_data) \<Rightarrow> Some (evs, process_result status_data))))"

text \<open>
  The \<open>except\<close> clauses, tried in order; every one of them logs one error and ends the run.
\<close>

fun except :: "exn \<Rightarrow> diagnostic" where
  "except (FabricHTTPException msg) = Error_Fabric_HTTP (FabricHTTPException msg)"
| "except (WorkspaceNotFoundException msg) = Error_Workspace_not_found (WorkspaceNotFoundException msg)"
| "except e = Error_unexpected e"

datatype outcome = Returned | Raised exn

record run =
  polled :: "event list"
  shown :: report
  outcome :: outcome

definition sync_lakehouse :: "LakehouseSyncManager \<Rightarrow> run option" where
  "sync_lakehouse self =
     (case try_block self of
        None \<Rightarrow> None
      | Some (evs, Inr rep) \<Rightarrow> Some \<lparr>polled = evs, shown = rep, outcome = Returned\<rparr>
      | Some (evs, Inl e) \<Rightarrow>
          Some \<lparr>polled = evs, shown = \<lparr>printed = [], logged = [except e]\<rparr>, outcome = Returned\<rparr>)"

section \<open>Timestamps as the specification speaks of them\<close>

text \<open>
  The specification's valid truncated-ISO timestamp: a string that, up to its first
  full stop, is \<open>YYYY-MM-DDTHH:MM:SS\<close> for a date of the calendar and a time of the day.
\<close>

definition pad4 :: "int \<Rightarrow> string" where
  "pad4 n =
     [digit_char (n div 1000), digit_char (n div 100 mod 10), digit_char (n div 10 mod 10),
      digit_char (n mod 10)]"

definition isoformat :: "int \<Rightarrow> int \<Rightarrow> int \<Rightarrow> int \<Rightarrow> int \<Rightarrow> int \<Rightarrow> string" where
  "isoformat y m d hh mm ss =
     pad4 y @ ''-'' @ pad2 m @ ''-'' @ pad2 d @ ''T'' @ pad2 hh @ '':'' @ pad2 mm @ '':'' @ pad2 ss"

definition valid_timestamp :: "int \<Rightarrow> int \<Rightarrow> int \<Rightarrow> int \<Rightarrow> int \<Rightarrow> int \<Rightarrow> bool" where
  "valid_timestamp y m d hh mm ss \<longleftrightarrow>
     1 \<le> y \<and> y \<le> 9999 \<and> 1 \<le> m \<and> m \<le> 12 \<and> 1 \<le> d \<and> d \<le> days_in_month y m
       \<and> 0 \<le> hh \<and> hh \<le> 23 \<and> 0 \<le> mm \<and> mm \<le> 59 \<and> 0 \<le> ss \<and> ss \<le> 59"

definition valid_truncated_iso :: "string \<Rightarrow> bool" where
  "valid_truncated_iso s \<longleftrightarrow>
     (\<exists>y m d hh mm ss. valid_timestamp y m d hh mm ss
        \<and> takeWhile (\<lambda>c. c \<noteq> CHR ''.'') s = isoformat y m d hh mm ss)"

text \<open>The instant of a date and time of UTC, in seconds from 1970-01-01T00:00:00.\<close>

definition utc_seconds :: "int \<Rightarrow> int \<Rightarrow> int \<Rightarrow> int \<Rightarrow> int \<Rightarrow> int \<Rightarrow> int" where
  "utc_seconds y m d hh mm ss = (ymd2ord y m d - 719163) * 86400 + hh * 3600 + mm * 60 + ss"

text \<open>
  Reading a localized string back: its fields, split at the separators that \<open>strftime\<close>
  wrote and accepted only when they are a date of the calendar and a time of the day,
  written as \<open>strftime\<close> writes them, then the offset that the zone gives to the abbreviation, then the instant. This is the
  reader that the round trip of the specification needs; the program has none.
\<close>

definition parse_localized :: "string \<Rightarrow> (int \<times> int \<times> int \<times> int \<times> int \<times> int \<times> string) option" where
  "parse_localized out =
     (let ys = takeWhile (\<lambda>c. c \<noteq> CHR ''-'') out;
          rest = dropWhile (\<lambda>c. c \<noteq> CHR ''-'') out
      in if ys \<noteq> [] \<and> 16 \<le> length rest \<and> rest ! 0 = CHR ''-'' \<and> rest ! 3 = CHR ''-''
            \<and> rest ! 6 = CHR '' '' \<and> rest ! 9 = CHR '':'' \<and> rest ! 12 = CHR '':''
            \<and> rest ! 15 = CHR '' ''
         then
           (case (parse_digits 0 ys, parse_digits 0 (take 2 (drop 1 rest)),
                  parse_digits 0 (take 2 (drop 4 rest)), parse_digits 0 (take 2 (drop 7 rest)),
                  parse_digits 0 (take 2 (drop 10 rest)), parse_digits 0 (take 2 (drop 13 rest))) of
              (Some y, Some m, Some d, Some hh, Some mm, Some ss) \<Rightarrow>
                if valid_timestamp y m d hh mm ss \<and> decimal y = ys
                then Some (y, m, d, hh, mm, ss, drop 16 rest)
                else None
            | _ \<Rightarrow> None)
         else None)"

definition abbreviation_offset :: "(int \<times> int \<times> string) list \<Rightarrow> string \<Rightarrow> int option" where
  "abbreviation_offset tz name = map_of (map (\<lambda>row. (snd (snd row), fst (snd row))) tz) name"

definition localized_to_utc :: "string \<Rightarrow> int option" where
  "localized_to_utc out =
     (case parse_localized out of
        None \<Rightarrow> None
      | Some (y, m, d, hh, mm, ss, name) \<Rightarrow>
          (case abbreviation_offset madrid_tz name of
             None \<Rightarrow> None
           | Some off \<Rightarrow> Some (utc_seconds y m d hh mm ss - off)))"

section \<open>Example servers\<close>

definition ok_response :: "json \<Rightarrow> exn + response" where
  "ok_response body = Inr \<lparr>raise_for_status = None, json_body = Inr body\<rparr>"

text \<open>A server that answers the three requests with \<open>lakehouse\<close>, \<open>refresh\<close> and \<open>status n\<close>.\<close>

definition server ::
  "(exn + response) \<Rightarrow> (exn + response) \<Rightarrow> (nat \<Rightarrow> exn + response) \<Rightarrow> LakehouseSyncManager" where
  "server lakehouse refresh status =
     \<lparr>workspace_id = ''ws'', lakehouse_id = ''lh'',
      client = \<lparr>get_lakehouse = (\<lambda>ws lh. lakehouse), post_refresh = (\<lambda>ep. refresh),
                get_batch = (\<lambda>ep batch. status)\<rparr>\<rparr>"

definition lakehouse_ep1 :: "exn + response" where
  "lakehouse_ep1 =
     ok_response
       (JObj [(''properties'', JObj [(''sqlEndpointProperties'', JObj [(''id'', JStr ''ep-1'')])])])"

definition refresh_b1 :: "json \<Rightarrow> exn + response" where
  "refresh_b1 initial = ok_response (JObj [(''batchId'', JStr ''b1''), (''progressState'', initial)])"

definition orders_table :: json where
  "orders_table =
     JObj [(''tableName'', JStr ''Orders''),
           (''lastSuccessfulUpdate'', JStr ''2024-01-01T10:00:00.123''),
           (''tableSyncState'', JStr ''Completed''),
           (''sqlSyncState'', JStr ''Completed'')]"

definition success_payload :: "json list \<Rightarrow> json" where
  "success_payload tables =
     JObj [(''progressState'', JStr ''success''),
           (''operationInformation'',
              JArr [JObj [(''progressDetail'', JObj [(''tablesSyncStatus'', JArr tables)])]])]"

definition state_payload :: "string \<Rightarrow> json" where
  "state_payload state = JObj [(''progressState'', JStr state)]"

text \<open>Status reads that report \<open>inProgress\<close> once and then the payload \<open>final\<close>.\<close>

definition then_final :: "json \<Rightarrow> nat \<Rightarrow> exn + response" where
  "then_final final n =
     (if n = 0 then ok_response (state_payload ''inProgress'') else ok_response final)"

text \<open>
  The scenario of the specification: endpoint \<open>ep-1\<close>, batch \<open>b1\<close> accepted as
  \<open>inProgress\<close>, one status read in progress, then success with the table \<open>Orders\<close>.
\<close>

definition scenario :: LakehouseSyncManager where
  "scenario =
     server lakehouse_ep1 (refresh_b1 (JStr ''inProgress''))
       (then_final (success_payload [orders_table]))"

definition transport_error :: "exn + response" where
  "transport_error =
     Inr \<lparr>raise_for_status = Some (OtherException ''503 Server Error''), json_body = Inr JNull\<rparr>"

definition orders_line :: table_detail where
  "orders_line =
     \<lparr>tableName = JStr ''Orders'', lastSuccessfulUpdate = ''2024-01-01 11:00:00 CET'',
      tableSyncState = JStr ''Completed'', sqlSyncState = JStr ''Completed''\<rparr>"

definition unsynced_table :: json where
  "unsynced_table =
     JObj [(''tableName'', JStr ''Returns''),
           (''tableSyncState'', JStr ''NotRun''),
           (''sqlSyncState'', JStr ''NotRun'')]"

section \<open>The poller\<close>

lemma cycles_0: "cycles n 0 = []"
  by (simp add: cycles_def)

lemma cycles_Suc: "cycles n (Suc j) = cycles n j @ [Sleep 1, Status_read (n + j)]"
  by (simp add: cycles_def)

lemma poll_loop_step:
  "progress_at self i b n = Inr (JStr ''inProgress'') \<Longrightarrow>
   poll_loop self i b n evs = poll_loop self i b (Suc n) (evs @ [Sleep 1, Status_read n])"
  by (subst poll_loop.simps) (auto simp: progress_at_def split: sum.splits)

lemma poll_loop_stop:
  "progress_at self i b n \<noteq> Inr (JStr ''inProgress'') \<Longrightarrow>
   poll_loop self i b n evs = Some (evs @ [Sleep 1, Status_read n], read_result self i b n)"
  by (subst poll_loop.simps) (auto simp: progress_at_def read_result_def split: sum.splits)

lemma poll_loop_skip:
  "(\<forall>k<j. progress_at self i b (n + k) = Inr (JStr ''inProgress'')) \<Longrightarrow>
   poll_loop self i b n evs = poll_loop self i b (n + j) (evs @ cycles n j)"
proof (induction j)
  case 0
  then show ?case by (simp add: cycles_0)
next
  case (Suc j)
  then have "poll_loop self i b n evs = poll_loop self i b (n + j) (evs @ cycles n j)"
    by simp
  also have "\<dots> = poll_loop self i b (Suc (n + j)) ((evs @ cycles n j) @ [Sleep 1, Status_read (n + j)])"
    using Suc.prems by (intro poll_loop_step) simp
  finally show ?case by (simp add: cycles_Suc)
qed

text \<open>Partial correctness by the induction rule of the fixed point: a loop that ends has met a read that is not in progress.\<close>

lemma poll_loop_Some_terminal:
  "poll_loop self i b n evs = Some r \<Longrightarrow>
   \<exists>k\<ge>n. progress_at self i b k \<noteq> Inr (JStr ''inProgress'')"
proof (induction rule: poll_loop.raw_induct[rotated 1, consumes 1])
  case (1 poll self i b n evs r)
  show ?case
  proof (cases "progress_at self i b n = Inr (JStr ''inProgress'')")
    case True
    then have "poll self i b (Suc n) (evs @ [Sleep 1, Status_read n]) = Some r"
      using 1(2) by (simp add: progress_at_def split: sum.splits)
    then obtain k where "k \<ge> Suc n" "progress_at self i b k \<noteq> Inr (JStr ''inProgress'')"
      using 1(1) by blast
    then show ?thesis by (intro exI[of _ k]) simp
  next
    case False
    then show ?thesis by blast
  qed
qed

lemma poll_loop_forever:
  "(\<forall>k. progress_at self i b k = Inr (JStr ''inProgress'')) \<Longrightarrow> poll_loop self i b n evs = None"
  using poll_loop_Some_terminal[of self i b n evs] by (cases "poll_loop self i b n evs") auto


lemma poll_sync_status_first:
  assumes "\<forall>k<n. progress_at self i b k = Inr (JStr ''inProgress'')"
    and "progress_at self i b n \<noteq> Inr (JStr ''inProgress'')"
  shows "poll_sync_status self i b = Some (cycles 0 (Suc n), read_result self i b n)"
proof -
  have "poll_loop self i b 0 [] = poll_loop self i b (0 + n) ([] @ cycles 0 n)"
    using assms(1) by (intro poll_loop_skip) simp
  also have "\<dots> = Some (([] @ cycles 0 n) @ [Sleep 1, Status_read (0 + n)], read_result self i b (0 + n))"
    using assms(2) by (intro poll_loop_stop) simp
  finally show ?thesis by (simp add: poll_sync_status_def cycles_Suc)
qed

lemma first_terminal:
  assumes "\<exists>k. progress_at self i b k \<noteq> Inr (JStr ''inProgress'')"
  obtains n where "\<forall>k<n. progress_at self i b k = Inr (JStr ''inProgress'')"
    and "progress_at self i b n \<noteq> Inr (JStr ''inProgress'')"
proof -
  from assms obtain n where "progress_at self i b n \<noteq> Inr (JStr ''inProgress'')"
    and "\<forall>k<n. \<not> progress_at self i b k \<noteq> Inr (JStr ''inProgress'')"
    by (subst (asm) exists_least_iff) blast
  then show ?thesis by (intro that[of n]) simp_all
qed

lemma poll_sync_status_Some:
  assumes "poll_sync_status self i b = Some (evs, r)"
  shows "\<exists>n. (\<forall>k<n. progress_at self i b k = Inr (JStr ''inProgress''))
           \<and> progress_at self i b n \<noteq> Inr (JStr ''inProgress'')
           \<and> evs = cycles 0 (Suc n) \<and> r = read_result self i b n"
proof -
  have "\<exists>k. progress_at self i b k \<noteq> Inr (JStr ''inProgress'')"
    using assms poll_loop_Some_terminal[of self i b 0 "[]" "(evs, r)"]
    by (auto simp: poll_sync_status_def)
  then obtain n where n: "\<forall>k<n. progress_at self i b k = Inr (JStr ''inProgress'')"
    "progress_at self i b n \<noteq> Inr (JStr ''inProgress'')"
    by (rule first_terminal)
  then have "poll_sync_status self i b = Some (cycles 0 (Suc n), read_result self i b n)"
    by (rule poll_sync_status_first)
  with assms have "evs = cycles 0 (Suc n)" "r = read_result self i b n"
    by simp_all
  with n show ?thesis by blast
qed

lemma poll_sync_status_cong:
  assumes "get_batch (client self1) = get_batch (client self2)"
  shows "poll_sync_status self1 i b = poll_sync_status self2 i b"
proof -
  have p: "progress_at self1 i b = progress_at self2 i b"
    and r: "read_result self1 i b = read_result self2 i b"
    using assms by (simp_all add: progress_at_def read_result_def status_read_def fun_eq_iff)
  show ?thesis
  proof (cases "\<forall>k. progress_at self1 i b k = Inr (JStr ''inProgress'')")
    case True
    then show ?thesis
      using p by (simp add: poll_sync_status_def poll_loop_forever)
  next
    case False
    then have "\<exists>k. progress_at self1 i b k \<noteq> Inr (JStr ''inProgress'')"
      by simp
    then obtain n where n: "\<forall>k<n. progress_at self1 i b k = Inr (JStr ''inProgress'')"
      "progress_at self1 i b n \<noteq> Inr (JStr ''inProgress'')"
      by (rule first_terminal)
    then have "poll_sync_status self1 i b = Some (cycles 0 (Suc n), read_result self1 i b n)"
      by (rule poll_sync_status_first)
    moreover have "poll_sync_status self2 i b = Some (cycles 0 (Suc n), read_result self2 i b n)"
      using n unfolding p by (rule poll_sync_status_first)
    ultimately show ?thesis using r by simp
  qed
qed


lemmas example_defs =
  server_def lakehouse_ep1_def refresh_b1_def ok_response_def then_final_def state_payload_def
  success_payload_def orders_table_def scenario_def

lemmas stage_defs =
  fetch_sql_endpoint_id_def initiate_sync_def checked_json_def progress_at_def read_result_def
  status_read_def

lemma cycles_2: "cycles 0 (Suc (Suc 0)) = [Sleep 1, Status_read 0, Sleep 1, Status_read 1]"
  by (simp add: cycles_def upt_rec)

lemma cycles_1: "cycles 0 (Suc 0) = [Sleep 1, Status_read 0]"
  by (simp add: cycles_def)

section \<open>The poller returns the first read that is not in progress\<close>

text \<open>
  Claim C2. Whatever the server answers, the poller returns a payload exactly when some
  status read \<open>n\<close> is the first whose \<open>progressState\<close> is not \<open>inProgress\<close>: every read
  before it reported \<open>inProgress\<close>, the payload returned is the whole body of read \<open>n\<close>,
  and the poller has made \<open>n + 1\<close> passes, each a sleep followed by a read. So it never
  returns on a read that is in progress, and it makes at least one pass: it is not given
  the state that the initiator reported.
\<close>

theorem poll_sync_status_first_terminal:
  "poll_sync_status self i b = Some (evs, Inr status_data) \<longleftrightarrow>
     (\<exists>n. (\<forall>k<n. progress_at self i b k = Inr (JStr ''inProgress''))
        \<and> status_read self i b n = Inr status_data
        \<and> (\<exists>state. getitem status_data ''progressState'' = Inr state \<and> state \<noteq> JStr ''inProgress'')
        \<and> evs = cycles 0 (Suc n))"
proof
  assume "poll_sync_status self i b = Some (evs, Inr status_data)"
  then obtain n where n: "\<forall>k<n. progress_at self i b k = Inr (JStr ''inProgress'')"
    "progress_at self i b n \<noteq> Inr (JStr ''inProgress'')"
    "evs = cycles 0 (Suc n)" "Inr status_data = read_result self i b n"
    using poll_sync_status_Some by blast
  from n(4) have "status_read self i b n = Inr status_data"
    by (auto simp: read_result_def split: sum.splits)
  moreover from n(2,4) have "\<exists>state. getitem status_data ''progressState'' = Inr state \<and> state \<noteq> JStr ''inProgress''"
    by (auto simp: read_result_def progress_at_def split: sum.splits)
  ultimately show "\<exists>n. (\<forall>k<n. progress_at self i b k = Inr (JStr ''inProgress''))
        \<and> status_read self i b n = Inr status_data
        \<and> (\<exists>state. getitem status_data ''progressState'' = Inr state \<and> state \<noteq> JStr ''inProgress'')
        \<and> evs = cycles 0 (Suc n)"
    using n(1,3) by blast
next
  assume "\<exists>n. (\<forall>k<n. progress_at self i b k = Inr (JStr ''inProgress''))
        \<and> status_read self i b n = Inr status_data
        \<and> (\<exists>state. getitem status_data ''progressState'' = Inr state \<and> state \<noteq> JStr ''inProgress'')
        \<and> evs = cycles 0 (Suc n)"
  then obtain n state where n: "\<forall>k<n. progress_at self i b k = Inr (JStr ''inProgress'')"
    "status_read self i b n = Inr status_data"
    "getitem status_data ''progressState'' = Inr state" "state \<noteq> JStr ''inProgress''"
    "evs = cycles 0 (Suc n)"
    by blast
  from n(2,3,4) have "progress_at self i b n \<noteq> Inr (JStr ''inProgress'')"
    and "read_result self i b n = Inr status_data"
    by (simp_all add: progress_at_def read_result_def)
  with n(1,5) show "poll_sync_status self i b = Some (evs, Inr status_data)"
    using poll_sync_status_first[of n self i b] by simp
qed

theorem poll_sync_status_first_terminal_witness:
  "poll_sync_status scenario (JStr ''ep-1'') (JStr ''b1'')
     = Some ([Sleep 1, Status_read 0, Sleep 1, Status_read 1], Inr (success_payload [orders_table]))
   \<and> poll_sync_status
       (server lakehouse_ep1 (refresh_b1 (JStr ''success'')) (\<lambda>n. ok_response (state_payload ''success'')))
       (JStr ''ep-1'') (JStr ''b1'')
     = Some ([Sleep 1, Status_read 0], Inr (state_payload ''success''))"
proof -
  let ?done = "server lakehouse_ep1 (refresh_b1 (JStr ''success'')) (\<lambda>n. ok_response (state_payload ''success''))"
  have "\<exists>n. (\<forall>k<n. progress_at scenario (JStr ''ep-1'') (JStr ''b1'') k = Inr (JStr ''inProgress''))
        \<and> status_read scenario (JStr ''ep-1'') (JStr ''b1'') n = Inr (success_payload [orders_table])
        \<and> (\<exists>state. getitem (success_payload [orders_table]) ''progressState'' = Inr state \<and> state \<noteq> JStr ''inProgress'')
        \<and> [Sleep 1, Status_read 0, Sleep 1, Status_read 1] = cycles 0 (Suc n)"
    by (rule exI[of _ "Suc 0"]) (simp add: stage_defs example_defs cycles_2)
  moreover have "\<exists>n. (\<forall>k<n. progress_at ?done (JStr ''ep-1'') (JStr ''b1'') k = Inr (JStr ''inProgress''))
        \<and> status_read ?done (JStr ''ep-1'') (JStr ''b1'') n = Inr (state_payload ''success'')
        \<and> (\<exists>state. getitem (state_payload ''success'') ''progressState'' = Inr state \<and> state \<noteq> JStr ''inProgress'')
        \<and> [Sleep 1, Status_read 0] = cycles 0 (Suc n)"
    by (rule exI[of _ 0]) (simp add: stage_defs example_defs cycles_1)
  ultimately show ?thesis
    using poll_sync_status_first_terminal[of scenario "JStr ''ep-1''" "JStr ''b1''"
        "[Sleep 1, Status_read 0, Sleep 1, Status_read 1]" "success_payload [orders_table]"]
      poll_sync_status_first_terminal[of ?done "JStr ''ep-1''" "JStr ''b1''"
        "[Sleep 1, Status_read 0]" "state_payload ''success''"]
    by simp
qed

section \<open>The poller has no bound\<close>

text \<open>
  Claim C8. The poller never returns exactly when every status read reports
  \<open>inProgress\<close>: there is no bound on the passes and no timeout. When it returns, it has
  made \<open>n + 1\<close> passes, each a sleep of one time unit followed by one status read, where
  read \<open>n\<close> is the first that does not report \<open>inProgress\<close>.
\<close>

theorem poll_sync_status_unbounded:
  "(poll_sync_status self i b = None \<longleftrightarrow> (\<forall>n. progress_at self i b n = Inr (JStr ''inProgress'')))
   \<and> (\<forall>evs r. poll_sync_status self i b = Some (evs, r) \<longrightarrow>
        (\<exists>n. evs = cycles 0 (Suc n)
           \<and> (\<forall>k<n. progress_at self i b k = Inr (JStr ''inProgress''))
           \<and> progress_at self i b n \<noteq> Inr (JStr ''inProgress'')))"
proof -
  have 1: "\<forall>n. progress_at self i b n = Inr (JStr ''inProgress'')"
    if none: "poll_sync_status self i b = None"
  proof (rule ccontr)
    assume "\<not> (\<forall>n. progress_at self i b n = Inr (JStr ''inProgress''))"
    then have "\<exists>k. progress_at self i b k \<noteq> Inr (JStr ''inProgress'')" by simp
    then obtain n where "\<forall>k<n. progress_at self i b k = Inr (JStr ''inProgress'')"
      "progress_at self i b n \<noteq> Inr (JStr ''inProgress'')"
      by (rule first_terminal)
    then have "poll_sync_status self i b = Some (cycles 0 (Suc n), read_result self i b n)"
      by (rule poll_sync_status_first)
    with none show False by simp
  qed
  have 2: "poll_sync_status self i b = None"
    if "\<forall>n. progress_at self i b n = Inr (JStr ''inProgress'')"
    using that by (simp add: poll_sync_status_def poll_loop_forever)
  have 3: "\<exists>n. evs = cycles 0 (Suc n)
           \<and> (\<forall>k<n. progress_at self i b k = Inr (JStr ''inProgress''))
           \<and> progress_at self i b n \<noteq> Inr (JStr ''inProgress'')"
    if "poll_sync_status self i b = Some (evs, r)" for evs r
    using poll_sync_status_Some[OF that] by blast
  from 1 2 3 show ?thesis by blast
qed

theorem poll_sync_status_unbounded_witness:
  "poll_sync_status (server lakehouse_ep1 (refresh_b1 (JStr ''inProgress''))
       (\<lambda>n. ok_response (state_payload ''inProgress''))) (JStr ''ep-1'') (JStr ''b1'') = None
   \<and> poll_sync_status scenario (JStr ''ep-1'') (JStr ''b1'') \<noteq> None"
proof -
  have "\<forall>n. progress_at (server lakehouse_ep1 (refresh_b1 (JStr ''inProgress''))
       (\<lambda>n. ok_response (state_payload ''inProgress''))) (JStr ''ep-1'') (JStr ''b1'') n
         = Inr (JStr ''inProgress'')"
    by (simp add: stage_defs example_defs)
  moreover have "\<not> (\<forall>n. progress_at scenario (JStr ''ep-1'') (JStr ''b1'') n = Inr (JStr ''inProgress''))"
    by (auto simp: stage_defs example_defs intro!: exI[of _ "Suc 0"])
  ultimately show ?thesis
    using poll_sync_status_unbounded[of "server lakehouse_ep1 (refresh_b1 (JStr ''inProgress''))
       (\<lambda>n. ok_response (state_payload ''inProgress''))" "JStr ''ep-1''" "JStr ''b1''"]
      poll_sync_status_unbounded[of scenario "JStr ''ep-1''" "JStr ''b1''"]
    by blast
qed


section \<open>The orchestrator\<close>

text \<open>
  Claim C1. An exception raised by the resolver, by the initiator, by the poller or while
  the result is processed does not leave \<open>sync_lakehouse\<close>: the run returns, has printed
  nothing, and has logged exactly one record, the one of the \<open>except\<close> clause that catches
  the exception.
\<close>

theorem sync_lakehouse_logs_every_fault:
  "(fetch_sql_endpoint_id self = Inl e \<longrightarrow>
      sync_lakehouse self
        = Some \<lparr>polled = [], shown = \<lparr>printed = [], logged = [except e]\<rparr>, outcome = Returned\<rparr>)
   \<and> (fetch_sql_endpoint_id self = Inr ep \<and> initiate_sync self ep = Inl e \<longrightarrow>
      sync_lakehouse self
        = Some \<lparr>polled = [], shown = \<lparr>printed = [], logged = [except e]\<rparr>, outcome = Returned\<rparr>)
   \<and> (fetch_sql_endpoint_id self = Inr ep \<and> initiate_sync self ep = Inr (batch, state)
        \<and> poll_sync_status self ep batch = Some (evs, Inl e) \<longrightarrow>
      sync_lakehouse self
        = Some \<lparr>polled = evs, shown = \<lparr>printed = [], logged = [except e]\<rparr>, outcome = Returned\<rparr>)
   \<and> (fetch_sql_endpoint_id self = Inr ep \<and> initiate_sync self ep = Inr (batch, state)
        \<and> poll_sync_status self ep batch = Some (evs, Inr status_data)
        \<and> process_result status_data = Inl e \<longrightarrow>
      sync_lakehouse self
        = Some \<lparr>polled = evs, shown = \<lparr>printed = [], logged = [except e]\<rparr>, outcome = Returned\<rparr>)"
  by (simp add: sync_lakehouse_def try_block_def)

theorem sync_lakehouse_logs_every_fault_witness:
  "sync_lakehouse (server transport_error (refresh_b1 (JStr ''inProgress'')) (then_final (state_payload ''success'')))
     = Some \<lparr>polled = [], shown = \<lparr>printed = [], logged = [Error_unexpected (OtherException ''503 Server Error'')]\<rparr>,
             outcome = Returned\<rparr>
   \<and> sync_lakehouse (server lakehouse_ep1 transport_error (then_final (state_payload ''success'')))
     = Some \<lparr>polled = [], shown = \<lparr>printed = [], logged = [Error_unexpected (OtherException ''503 Server Error'')]\<rparr>,
             outcome = Returned\<rparr>
   \<and> sync_lakehouse (server lakehouse_ep1 (refresh_b1 (JStr ''inProgress'')) (\<lambda>n. transport_error))
     = Some \<lparr>polled = [Sleep 1, Status_read 0],
             shown = \<lparr>printed = [], logged = [Error_unexpected (OtherException ''503 Server Error'')]\<rparr>,
             outcome = Returned\<rparr>
   \<and> sync_lakehouse (server lakehouse_ep1 (refresh_b1 (JStr ''inProgress'')) (then_final (state_payload ''success'')))
     = Some \<lparr>polled = [Sleep 1, Status_read 0, Sleep 1, Status_read 1],
             shown = \<lparr>printed = [], logged = [Error_unexpected (KeyError (SKey ''operationInformation''))]\<rparr>,
             outcome = Returned\<rparr>"
proof -
  let ?m1 = "server transport_error (refresh_b1 (JStr ''inProgress'')) (then_final (state_payload ''success''))"
  let ?m2 = "server lakehouse_ep1 transport_error (then_final (state_payload ''success''))"
  let ?m3 = "server lakehouse_ep1 (refresh_b1 (JStr ''inProgress'')) (\<lambda>n. transport_error)"
  let ?m4 = "server lakehouse_ep1 (refresh_b1 (JStr ''inProgress'')) (then_final (state_payload ''success''))"
  let ?e = "OtherException ''503 Server Error''"
  have f1: "fetch_sql_endpoint_id ?m1 = Inl ?e"
    by (simp add: stage_defs example_defs transport_error_def)
  have f2: "fetch_sql_endpoint_id ?m2 = Inr (JStr ''ep-1'')" "initiate_sync ?m2 (JStr ''ep-1'') = Inl ?e"
    by (simp_all add: stage_defs example_defs transport_error_def)
  have f3: "fetch_sql_endpoint_id ?m3 = Inr (JStr ''ep-1'')"
    "initiate_sync ?m3 (JStr ''ep-1'') = Inr (JStr ''b1'', JStr ''inProgress'')"
    by (simp_all add: stage_defs example_defs)
  have p3: "poll_sync_status ?m3 (JStr ''ep-1'') (JStr ''b1'') = Some ([Sleep 1, Status_read 0], Inl ?e)"
    using poll_sync_status_first[of 0 ?m3 "JStr ''ep-1''" "JStr ''b1''"]
    by (simp add: stage_defs example_defs transport_error_def cycles_1)
  have f4: "fetch_sql_endpoint_id ?m4 = Inr (JStr ''ep-1'')"
    "initiate_sync ?m4 (JStr ''ep-1'') = Inr (JStr ''b1'', JStr ''inProgress'')"
    by (simp_all add: stage_defs example_defs)
  have p4: "poll_sync_status ?m4 (JStr ''ep-1'') (JStr ''b1'')
      = Some ([Sleep 1, Status_read 0, Sleep 1, Status_read 1], Inr (state_payload ''success''))"
    using poll_sync_status_first[of "Suc 0" ?m4 "JStr ''ep-1''" "JStr ''b1''"]
    by (simp add: stage_defs example_defs cycles_2)
  have r4: "process_result (state_payload ''success'') = Inl (KeyError (SKey ''operationInformation''))"
    by (simp add: process_result_def state_payload_def)
  show ?thesis
    using sync_lakehouse_logs_every_fault[of ?m1 ?e]
      sync_lakehouse_logs_every_fault[of ?m2 ?e "JStr ''ep-1''"]
      sync_lakehouse_logs_every_fault[of ?m3 ?e "JStr ''ep-1''" "JStr ''b1''" "JStr ''inProgress''" "[Sleep 1, Status_read 0]"]
      sync_lakehouse_logs_every_fault[of ?m4 "KeyError (SKey ''operationInformation'')" "JStr ''ep-1''" "JStr ''b1''"
        "JStr ''inProgress''" "[Sleep 1, Status_read 0, Sleep 1, Status_read 1]" "state_payload ''success''"]
      f1 f2 f3 p3 f4 p4 r4
    by simp
qed

text \<open>
  Claim C4. On a payload whose \<open>progressState\<close> is not \<open>success\<close>, nothing is printed and
  exactly one record is logged: an error with the whole payload when the state is
  \<open>failure\<close>, and otherwise a warning with the state that was read.
\<close>

theorem process_result_not_success:
  assumes "getitem status_data ''progressState'' = Inr state"
    and "state \<noteq> JStr ''success''"
  shows "process_result status_data
     = Inr \<lparr>printed = [],
            logged = [if state = JStr ''failure'' then Error_Sync_failed status_data
                      else Warning_Unexpected_state state]\<rparr>"
  using assms by (simp add: process_result_def)

theorem process_result_not_success_witness:
  "process_result (state_payload ''failure'')
     = Inr \<lparr>printed = [], logged = [Error_Sync_failed (state_payload ''failure'')]\<rparr>
   \<and> process_result (state_payload ''cancelled'')
     = Inr \<lparr>printed = [], logged = [Warning_Unexpected_state (JStr ''cancelled'')]\<rparr>"
  using process_result_not_success[of "state_payload ''failure''" "JStr ''failure''"]
    process_result_not_success[of "state_payload ''cancelled''" "JStr ''cancelled''"]
  by (simp add: state_payload_def)

text \<open>
  Claim C9. When the body of the lakehouse response has a dictionary \<open>properties\<close> without
  the key \<open>sqlEndpointProperties\<close>, the run returns, prints nothing and logs one error, which
  carries the \<open>KeyError\<close> of the missing key.
\<close>

theorem missing_sql_endpoint_properties:
  assumes "checked_json (get_lakehouse (client self) (workspace_id self) (lakehouse_id self)) = Inr lakehouse_info"
    and "getitem lakehouse_info ''properties'' = Inr (JObj properties)"
    and "map_of properties ''sqlEndpointProperties'' = None"
  shows "sync_lakehouse self
     = Some \<lparr>polled = [],
             shown = \<lparr>printed = [], logged = [Error_unexpected (KeyError (SKey ''sqlEndpointProperties''))]\<rparr>,
             outcome = Returned\<rparr>"
  using assms by (simp add: sync_lakehouse_def try_block_def fetch_sql_endpoint_id_def)

theorem missing_sql_endpoint_properties_witness:
  "sync_lakehouse
     (server (ok_response (JObj [(''properties'', JObj [(''displayName'', JStr ''lh'')])]))
        (refresh_b1 (JStr ''inProgress'')) (then_final (success_payload [orders_table])))
     = Some \<lparr>polled = [],
             shown = \<lparr>printed = [], logged = [Error_unexpected (KeyError (SKey ''sqlEndpointProperties''))]\<rparr>,
             outcome = Returned\<rparr>"
  using missing_sql_endpoint_properties[of
      "server (ok_response (JObj [(''properties'', JObj [(''displayName'', JStr ''lh'')])]))
        (refresh_b1 (JStr ''inProgress'')) (then_final (success_payload [orders_table]))"
      "JObj [(''properties'', JObj [(''displayName'', JStr ''lh'')])]"
      "[(''displayName'', JStr ''lh'')]"]
  by (simp add: checked_json_def server_def ok_response_def)

text \<open>
  Claim C10. Two runs that resolve the same endpoint, obtain the same batch and read the
  same status responses do the same, whatever \<open>progressState\<close> the initiator returned to each.
\<close>

theorem initial_progress_state_discarded:
  assumes "fetch_sql_endpoint_id self1 = Inr ep" and "fetch_sql_endpoint_id self2 = Inr ep"
    and "initiate_sync self1 ep = Inr (batch, state1)"
    and "initiate_sync self2 ep = Inr (batch, state2)"
    and "get_batch (client self1) = get_batch (client self2)"
  shows "sync_lakehouse self1 = sync_lakehouse self2"
  using assms poll_sync_status_cong[OF assms(5), of ep batch]
  by (simp add: sync_lakehouse_def try_block_def)

theorem initial_progress_state_discarded_witness:
  "sync_lakehouse (server lakehouse_ep1 (refresh_b1 (JStr ''inProgress'')) (then_final (success_payload [orders_table])))
     = sync_lakehouse (server lakehouse_ep1 (refresh_b1 (JStr ''success'')) (then_final (success_payload [orders_table])))"
  using initial_progress_state_discarded[of
      "server lakehouse_ep1 (refresh_b1 (JStr ''inProgress'')) (then_final (success_payload [orders_table]))"
      "JStr ''ep-1''"
      "server lakehouse_ep1 (refresh_b1 (JStr ''success'')) (then_final (success_payload [orders_table]))"
      "JStr ''b1''" "JStr ''inProgress''" "JStr ''success''"]
  by (simp add: stage_defs example_defs)

lemma process_result_orders:
  "process_result (success_payload [orders_table]) = Inr \<lparr>printed = [orders_line], logged = []\<rparr>"
  by code_simp

text \<open>
  Claim C6. In the scenario of the specification the run reads the status twice, prints
  the one line of the table \<open>Orders\<close>, whose last update reads \<open>2024-01-01 11:00:00 CET\<close>, and
  logs nothing.
\<close>

theorem scenario_prints_orders:
  "sync_lakehouse scenario
     = Some \<lparr>polled = [Sleep 1, Status_read 0, Sleep 1, Status_read 1],
             shown = \<lparr>printed = [orders_line], logged = []\<rparr>, outcome = Returned\<rparr>
   \<and> lastSuccessfulUpdate orders_line = ''2024-01-01 11:00:00 CET''
   \<and> tableName orders_line = JStr ''Orders''"
proof -
  have f: "fetch_sql_endpoint_id scenario = Inr (JStr ''ep-1'')"
    "initiate_sync scenario (JStr ''ep-1'') = Inr (JStr ''b1'', JStr ''inProgress'')"
    by (simp_all add: stage_defs example_defs)
  have p: "poll_sync_status scenario (JStr ''ep-1'') (JStr ''b1'')
      = Some ([Sleep 1, Status_read 0, Sleep 1, Status_read 1], Inr (success_payload [orders_table]))"
    using poll_sync_status_first[of "Suc 0" scenario "JStr ''ep-1''" "JStr ''b1''"]
    by (simp add: stage_defs scenario_def server_def ok_response_def then_final_def state_payload_def
        success_payload_def cycles_2)
  show ?thesis
    by (simp add: sync_lakehouse_def try_block_def f p process_result_orders orders_line_def)
qed

lemma process_result_unsynced:
  "process_result (success_payload [orders_table, unsynced_table]) = Inl ValueError"
  by code_simp

text \<open>
  Claim C3, at a payload that the code does not report: a successful refresh of two
  tables, the second without the key \<open>lastSuccessfulUpdate\<close>. The default \<open>'N/A'\<close> of
  \<open>table.get\<close> is a string, not \<open>None\<close>, so the localizer parses \<open>N/A+00:00\<close> and raises
  \<open>ValueError\<close>; the run prints no line, not even that of the first table, and logs one
  error.
\<close>

theorem missing_last_update_drops_report:
  "sync_lakehouse (server lakehouse_ep1 (refresh_b1 (JStr ''inProgress''))
       (then_final (success_payload [orders_table, unsynced_table])))
     = Some \<lparr>polled = [Sleep 1, Status_read 0, Sleep 1, Status_read 1],
             shown = \<lparr>printed = [], logged = [Error_unexpected ValueError]\<rparr>, outcome = Returned\<rparr>"
proof -
  let ?m = "server lakehouse_ep1 (refresh_b1 (JStr ''inProgress''))
       (then_final (success_payload [orders_table, unsynced_table]))"
  have f: "fetch_sql_endpoint_id ?m = Inr (JStr ''ep-1'')"
    "initiate_sync ?m (JStr ''ep-1'') = Inr (JStr ''b1'', JStr ''inProgress'')"
    by (simp_all add: stage_defs example_defs)
  have p: "poll_sync_status ?m (JStr ''ep-1'') (JStr ''b1'')
      = Some ([Sleep 1, Status_read 0, Sleep 1, Status_read 1],
              Inr (success_payload [orders_table, unsynced_table]))"
    using poll_sync_status_first[of "Suc 0" ?m "JStr ''ep-1''" "JStr ''b1''"]
    by (simp add: stage_defs server_def ok_response_def then_final_def state_payload_def
        success_payload_def cycles_2)
  show ?thesis
    by (simp add: sync_lakehouse_def try_block_def f p process_result_unsynced)
qed

section \<open>The calendar\<close>

lemma mod_eq_0_bounded:
  fixes x m :: int
  assumes "0 < x" "x \<le> m"
  shows "x mod m = 0 \<longleftrightarrow> x = m"
proof (cases "x = m")
  case True
  then show ?thesis by simp
next
  case False
  with assms have "x mod m = x" by (intro mod_pos_pos_trivial) simp_all
  with assms False show ?thesis by simp
qed

lemma leap_decomp:
  assumes "0 \<le> b" "b \<le> 3" "0 \<le> c" "c \<le> 24" "0 \<le> d" "d \<le> 3"
  shows "is_leap (400 * a + 100 * b + 4 * c + d + 1) \<longleftrightarrow> d = 3 \<and> (c \<noteq> 24 \<or> b = 3)"
proof -
  have "400 * a + 100 * b + 4 * c + d + 1 = 4 * (100 * a + 25 * b + c) + (d + 1)"
    by simp
  then have 1: "(400 * a + 100 * b + 4 * c + d + 1) mod 4 = (d + 1) mod 4"
    by (simp only: mod_mult_self4)
  have "400 * a + 100 * b + 4 * c + d + 1 = 100 * (4 * a + b) + (4 * c + d + 1)"
    by simp
  then have 2: "(400 * a + 100 * b + 4 * c + d + 1) mod 100 = (4 * c + d + 1) mod 100"
    by (simp only: mod_mult_self4)
  have "400 * a + 100 * b + 4 * c + d + 1 = 400 * a + (100 * b + 4 * c + d + 1)"
    by simp
  then have 3: "(400 * a + 100 * b + 4 * c + d + 1) mod 400 = (100 * b + 4 * c + d + 1) mod 400"
    by (simp only: mod_mult_self4)
  have 4: "(d + 1) mod 4 = 0 \<longleftrightarrow> d = 3"
    using assms by presburger
  have 5: "(4 * c + d + 1) mod 100 = 0 \<longleftrightarrow> 4 * c + d + 1 = 100"
    using assms by (intro mod_eq_0_bounded) simp_all
  have 6: "(100 * b + 4 * c + d + 1) mod 400 = 0 \<longleftrightarrow> 100 * b + 4 * c + d + 1 = 400"
    using assms by (intro mod_eq_0_bounded) simp_all
  show ?thesis
    unfolding is_leap_def 1 2 3 4 5 6 using assms by linarith
qed


lemma dby_decomp:
  assumes "0 \<le> b" "b \<le> 3" "0 \<le> c" "c \<le> 24" "0 \<le> d" "d \<le> 3"
  shows "days_before_year (400 * a + 100 * b + 4 * c + d + 1) = 146097 * a + 36524 * b + 1461 * c + 365 * d"
proof -
  have 1: "(400 * a + 100 * b + 4 * c + d) div 4 = 100 * a + 25 * b + c"
    using assms by linarith
  have 2: "(400 * a + 100 * b + 4 * c + d) div 100 = 4 * a + b"
    using assms by linarith
  have 3: "(400 * a + 100 * b + 4 * c + d) div 400 = a"
    using assms by linarith
  show ?thesis
    by (simp add: days_before_year_def 1 2 3)
qed

text \<open>The month and the day of day number \<open>e\<close> (from 0) of a year, as \<open>_ord2ymd\<close> finds them.\<close>

lemma month_day:
  fixes e :: int and L :: bool
  assumes "0 \<le> e" "e \<le> 364"
  defines "mo \<equiv> (e + 50) div 32"
  defines "preceding \<equiv> DAYS_BEFORE_MONTH ! nat mo + (if mo > 2 \<and> L then 1 else 0)"
  defines "mo' \<equiv> mo - 1"
  defines "preceding' \<equiv> preceding - (DAYS_IN_MONTH ! nat mo' + (if mo' = 2 \<and> L then 1 else 0))"
  defines "res \<equiv> (if preceding > e then (mo', e - preceding' + 1) else (mo, e - preceding + 1))"
  shows "1 \<le> fst res \<and> fst res \<le> 12 \<and> 1 \<le> snd res
     \<and> snd res \<le> DAYS_IN_MONTH ! nat (fst res) + (if fst res = 2 \<and> L then 1 else 0)
     \<and> DAYS_BEFORE_MONTH ! nat (fst res) + (if fst res > 2 \<and> L then 1 else 0) + snd res = e + 1"
proof -
  have "1 \<le> mo" "mo \<le> 12"
    using assms(1,2) unfolding mo_def by linarith+
  then have "mo = 1 \<or> mo = 2 \<or> mo = 3 \<or> mo = 4 \<or> mo = 5 \<or> mo = 6
      \<or> mo = 7 \<or> mo = 8 \<or> mo = 9 \<or> mo = 10 \<or> mo = 11 \<or> mo = 12"
    by presburger
  moreover have "32 * mo - 50 \<le> e" "e \<le> 32 * mo - 19"
    unfolding mo_def by linarith+
  ultimately show ?thesis
    using assms(1,2) unfolding res_def preceding'_def mo'_def preceding_def
    by (elim disjE) (simp_all add: DAYS_BEFORE_MONTH_def DAYS_IN_MONTH_def)
qed


lemma days_in_month_alt:
  "days_in_month y m = DAYS_IN_MONTH ! nat m + (if m = 2 \<and> is_leap y then 1 else 0)"
  by (simp add: days_in_month_def DAYS_IN_MONTH_def)

lemma pair_if:
  "(if t then (y, m1, d1) else (y, m2, d2))
     = (y, fst (if t then (m1, d1) else (m2, d2)), snd (if t then (m1, d1) else (m2, d2)))"
  by simp

lemma ord2ymd_spec:
  assumes "1 \<le> n"
  shows "case ord2ymd n of (y, m, dd) \<Rightarrow>
           1 \<le> y \<and> 1 \<le> m \<and> m \<le> 12 \<and> 1 \<le> dd \<and> dd \<le> days_in_month y m
             \<and> ymd2ord y m dd = n"
proof -
  define n0 where "n0 = n - 1"
  define a where "a = n0 div 146097"
  define r1 where "r1 = n0 mod 146097"
  define b where "b = r1 div 36524"
  define r2 where "r2 = r1 mod 36524"
  define c where "c = r2 div 1461"
  define r3 where "r3 = r2 mod 1461"
  define d where "d = r3 div 365"
  define e where "e = r3 mod 365"
  define L where "L \<longleftrightarrow> d = 3 \<and> (c \<noteq> 24 \<or> b = 3)"
  define Y where "Y = a * 400 + 1 + b * 100 + c * 4 + d"
  define res where "res =
    (if DAYS_BEFORE_MONTH ! nat ((e + 50) div 32) + (if (e + 50) div 32 > 2 \<and> L then 1 else 0) > e
     then ((e + 50) div 32 - 1,
           e - (DAYS_BEFORE_MONTH ! nat ((e + 50) div 32) + (if (e + 50) div 32 > 2 \<and> L then 1 else 0)
                - (DAYS_IN_MONTH ! nat ((e + 50) div 32 - 1)
                   + (if (e + 50) div 32 - 1 = 2 \<and> L then 1 else 0))) + 1)
     else ((e + 50) div 32,
           e - (DAYS_BEFORE_MONTH ! nat ((e + 50) div 32) + (if (e + 50) div 32 > 2 \<and> L then 1 else 0)) + 1))"
  have n0: "0 \<le> n0" "n = n0 + 1"
    using assms by (simp_all add: n0_def)
  have a: "0 \<le> a" "n0 = 146097 * a + r1" "0 \<le> r1" "r1 < 146097"
    using n0 by (simp_all add: a_def r1_def pos_imp_zdiv_nonneg_iff)
  have b: "0 \<le> b" "r1 = 36524 * b + r2" "0 \<le> r2" "r2 < 36524"
    using a by (simp_all add: b_def r2_def pos_imp_zdiv_nonneg_iff)
  have c: "0 \<le> c" "r2 = 1461 * c + r3" "0 \<le> r3" "r3 < 1461"
    using b by (simp_all add: c_def r3_def pos_imp_zdiv_nonneg_iff)
  have d: "0 \<le> d" "r3 = 365 * d + e" "0 \<le> e" "e \<le> 364"
    using c by (simp_all add: d_def e_def pos_imp_zdiv_nonneg_iff)
  have b4: "b \<le> 4" using a b by linarith
  have c24: "c \<le> 24" using b c by linarith
  have d4: "d \<le> 4" using c d by linarith
  have o: "ord2ymd n = (if d = 4 \<or> b = 4 then (Y - 1, 12, 31) else (Y, fst res, snd res))"
    unfolding ord2ymd_def Let_def res_def Y_def L_def e_def d_def r3_def c_def r2_def b_def r1_def a_def n0_def
    by (subst pair_if) (rule refl)
  show ?thesis
  proof (cases "d = 4 \<or> b = 4")
    case True
    have Y: "Y - 1 = 400 * a + 100 * b + 4 * c + d"
      by (simp add: Y_def)
    show ?thesis
    proof (cases "b = 4")
      case True
      with a b c d have z: "r2 = 0" "c = 0" "d = 0" "e = 0"
        by linarith+
      have "Y - 1 = 400 * a + 100 * 3 + 4 * 24 + 3 + 1"
        using True z by (simp add: Y)
      then have "days_before_year (Y - 1) = 146097 * a + 36524 * 3 + 1461 * 24 + 365 * 3"
        and "is_leap (Y - 1)"
        using dby_decomp[of 3 24 3 a] leap_decomp[of 3 24 3 a] by simp_all
      then have "ymd2ord (Y - 1) 12 31 = n"
        using a b z True n0
        by (simp add: ymd2ord_def days_before_month_def DAYS_BEFORE_MONTH_def)
      moreover have "1 \<le> Y - 1" using a True z by (simp add: Y)
      moreover have "days_in_month (Y - 1) 12 = 31"
        by (simp add: days_in_month_def DAYS_IN_MONTH_def)
      ultimately show ?thesis
        using \<open>d = 4 \<or> b = 4\<close> by (simp add: o)
    next
      case False
      with True have d: "d = 4" "e = 0" "b \<le> 3" using b4 c d by linarith+
      then have c23: "c \<le> 23" using b c \<open>r3 = 365 * d + e\<close> by linarith
      have "Y - 1 = 400 * a + 100 * b + 4 * c + 3 + 1"
        using d by (simp add: Y)
      then have "days_before_year (Y - 1) = 146097 * a + 36524 * b + 1461 * c + 365 * 3"
        and "is_leap (Y - 1)"
        using dby_decomp[of b c 3 a] leap_decomp[of b c 3 a] b c c23 d by simp_all
      then have "ymd2ord (Y - 1) 12 31 = n"
        using a b c d \<open>r3 = 365 * d + e\<close> n0
        by (simp add: ymd2ord_def days_before_month_def DAYS_BEFORE_MONTH_def)
      moreover have "1 \<le> Y - 1" using a b c d by (simp add: Y)
      moreover have "days_in_month (Y - 1) 12 = 31"
        by (simp add: days_in_month_def DAYS_IN_MONTH_def)
      ultimately show ?thesis
        using \<open>d = 4 \<or> b = 4\<close> by (simp add: o)
    qed
  next
    case False
    then have bd: "b \<le> 3" "d \<le> 3" using b4 d4 by linarith+
    have Y: "Y = 400 * a + 100 * b + 4 * c + d + 1"
      by (simp add: Y_def)
    have dby: "days_before_year Y = 146097 * a + 36524 * b + 1461 * c + 365 * d"
      and leap: "is_leap Y \<longleftrightarrow> L"
      unfolding Y L_def using dby_decomp[of b c d a] leap_decomp[of b c d a] b c d bd c24 by simp_all
    have md: "1 \<le> fst res \<and> fst res \<le> 12 \<and> 1 \<le> snd res
      \<and> snd res \<le> DAYS_IN_MONTH ! nat (fst res) + (if fst res = 2 \<and> L then 1 else 0)
      \<and> DAYS_BEFORE_MONTH ! nat (fst res) + (if fst res > 2 \<and> L then 1 else 0) + snd res = e + 1"
      unfolding res_def using month_day[of e L] d by simp
    have "ymd2ord Y (fst res) (snd res) = n"
      using md a b c d n0 by (simp add: ymd2ord_def days_before_month_def dby leap)
    moreover have "1 \<le> Y" using a b c d by (simp add: Y)
    ultimately show ?thesis
      using False md by (simp add: o case_prod_beta days_in_month_alt leap)
  qed
qed

text \<open>The ordinal grows with the date, so a date is determined by its ordinal.\<close>

lemma mod_100_4: fixes y :: int shows "y mod 100 = 0 \<Longrightarrow> y mod 4 = 0"
proof -
  assume "y mod 100 = 0"
  then have "100 dvd y" by (simp add: mod_eq_0_iff_dvd)
  moreover have "(4::int) dvd 100" by simp
  ultimately have "4 dvd y" by (rule dvd_trans[rotated])
  then show ?thesis by (simp add: mod_eq_0_iff_dvd)
qed

lemma mod_400_100: fixes y :: int shows "y mod 400 = 0 \<Longrightarrow> y mod 100 = 0"
proof -
  assume "y mod 400 = 0"
  then have "400 dvd y" by (simp add: mod_eq_0_iff_dvd)
  moreover have "(100::int) dvd 400" by simp
  ultimately have "100 dvd y" by (rule dvd_trans[rotated])
  then show ?thesis by (simp add: mod_eq_0_iff_dvd)
qed

lemma div_step:
  fixes y k :: int
  assumes "0 < k"
  shows "y div k = (y - 1) div k + (if y mod k = 0 then 1 else 0)"
proof (cases "y mod k = 0")
  case True
  have "y = k * (y div k)"
    using mult_div_mod_eq[of k y] True by simp
  then have "y - 1 = k * (y div k - 1) + (k - 1)"
    by (simp add: algebra_simps)
  then have "(y - 1) div k = y div k - 1"
    by (rule int_div_pos_eq) (use assms in simp_all)
  with True show ?thesis by simp
next
  case False
  have "y - 1 = k * (y div k) + (y mod k - 1)"
    by (simp add: algebra_simps)
  moreover have "0 \<le> y mod k - 1" "y mod k - 1 < k"
    using False assms pos_mod_sign[of k y] pos_mod_bound[of k y] by linarith+
  ultimately have "(y - 1) div k = y div k"
    by (rule int_div_pos_eq)
  with False show ?thesis by simp
qed

lemma days_before_year_step:
  "days_before_year (y + 1) = days_before_year y + 365 + (if is_leap y then 1 else 0)"
proof -
  define q4 q100 q400 where "q4 = (y - 1) div 4" and "q100 = (y - 1) div 100" and "q400 = (y - 1) div 400"
  have s: "y div 4 = q4 + (if y mod 4 = 0 then 1 else 0)"
    "y div 100 = q100 + (if y mod 100 = 0 then 1 else 0)"
    "y div 400 = q400 + (if y mod 400 = 0 then 1 else 0)"
    unfolding q4_def q100_def q400_def by (rule div_step, simp)+
  have e1: "days_before_year (y + 1) = y * 365 + y div 4 - y div 100 + y div 400"
    by (simp add: days_before_year_def)
  have e2: "days_before_year y = (y - 1) * 365 + q4 - q100 + q400"
    by (simp add: days_before_year_def Let_def q4_def q100_def q400_def)
  show ?thesis
  proof (cases "y mod 4 = 0")
    case False
    then have "y mod 100 \<noteq> 0" "y mod 400 \<noteq> 0"
      using mod_100_4[of y] mod_400_100[of y] by auto
    with False show ?thesis
      unfolding e1 e2 s is_leap_def by simp
  next
    case m4: True
    show ?thesis
    proof (cases "y mod 100 = 0")
      case False
      then have "y mod 400 \<noteq> 0"
        using mod_400_100[of y] by auto
      with m4 False show ?thesis
        unfolding e1 e2 s is_leap_def by simp
    next
      case m100: True
      show ?thesis
      proof (cases "y mod 400 = 0")
        case False
        with m4 m100 show ?thesis
          unfolding e1 e2 s is_leap_def by simp
      next
        case True
        with m4 m100 show ?thesis
          unfolding e1 e2 s is_leap_def by simp
      qed
    qed
  qed
qed

lemma days_before_year_mono:
  assumes "y \<le> y'"
  shows "days_before_year y + 365 * (y' - y) \<le> days_before_year y'"
  using assms
proof (induction y' rule: int_ge_induct)
  case base
  then show ?case by simp
next
  case (step i)
  then show ?case
    using days_before_year_step[of i] by (simp add: algebra_simps split: if_splits)
qed

lemma month_cases:
  fixes m :: int
  assumes "1 \<le> m" "m \<le> 12"
  shows "m = 1 \<or> m = 2 \<or> m = 3 \<or> m = 4 \<or> m = 5 \<or> m = 6 \<or> m = 7 \<or> m = 8 \<or> m = 9 \<or> m = 10
    \<or> m = 11 \<or> m = 12"
  using assms by presburger

lemma day_of_year_bounds:
  assumes "1 \<le> m" "m \<le> 12" "1 \<le> d" "d \<le> days_in_month y m"
  shows "1 \<le> days_before_month y m + d"
    and "days_before_month y m + d \<le> 365 + (if is_leap y then 1 else 0)"
  using month_cases[OF assms(1,2)] assms(3,4)
  by (elim disjE; simp add: days_before_month_def days_in_month_def DAYS_BEFORE_MONTH_def
      DAYS_IN_MONTH_def split: if_splits)+

lemma next_month:
  assumes "1 \<le> m" "m \<le> 11"
  shows "days_before_month y (m + 1) = days_before_month y m + days_in_month y m"
proof -
  have "m = 1 \<or> m = 2 \<or> m = 3 \<or> m = 4 \<or> m = 5 \<or> m = 6 \<or> m = 7 \<or> m = 8 \<or> m = 9 \<or> m = 10 \<or> m = 11"
    using assms by presburger
  then show ?thesis
    by (elim disjE; simp add: days_before_month_def days_in_month_def DAYS_BEFORE_MONTH_def
      DAYS_IN_MONTH_def)
qed

lemma days_in_month_pos:
  assumes "1 \<le> m" "m \<le> 12"
  shows "28 \<le> days_in_month y m"
  using month_cases[OF assms]
  by (elim disjE; simp add: days_in_month_def DAYS_IN_MONTH_def)

lemma days_before_month_mono:
  assumes "1 \<le> m" "m \<le> m'" "m' \<le> 12"
  shows "days_before_month y m \<le> days_before_month y m'"
  using assms(2,1,3)
proof (induction m' rule: int_ge_induct)
  case base
  then show ?case by simp
next
  case (step i)
  then have "days_before_month y (i + 1) = days_before_month y i + days_in_month y i"
    by (intro next_month) simp_all
  moreover have "28 \<le> days_in_month y i"
    using step by (intro days_in_month_pos) simp_all
  ultimately show ?case
    using step by simp
qed


lemma ymd2ord_less_year:
  assumes "1 \<le> m" "m \<le> 12" "1 \<le> d" "d \<le> days_in_month y m"
    and "1 \<le> m'" "m' \<le> 12" "1 \<le> d'" "d' \<le> days_in_month y' m'"
    and "y < y'"
  shows "ymd2ord y m d < ymd2ord y' m' d'"
proof -
  have "ymd2ord y m d \<le> days_before_year y + 365 + (if is_leap y then 1 else 0)"
    using day_of_year_bounds(2)[OF assms(1-4)] by (simp add: ymd2ord_def)
  also have "\<dots> = days_before_year (y + 1)"
    by (simp add: days_before_year_step)
  also have "\<dots> \<le> days_before_year y'"
    using days_before_year_mono[of "y + 1" y'] assms(9) by simp
  also have "\<dots> < ymd2ord y' m' d'"
    using day_of_year_bounds(1)[OF assms(5-8)] by (simp add: ymd2ord_def)
  finally show ?thesis .
qed

lemma ymd2ord_less_month:
  assumes "1 \<le> m" "d \<le> days_in_month y m" "m < m'" "m' \<le> 12" "1 \<le> d'"
  shows "ymd2ord y m d < ymd2ord y m' d'"
proof -
  have "days_before_month y m + d \<le> days_before_month y (m + 1)"
    using assms by (simp add: next_month)
  also have "\<dots> \<le> days_before_month y m'"
    using assms by (intro days_before_month_mono) simp_all
  finally show ?thesis
    using assms(5) by (simp add: ymd2ord_def)
qed

lemma ymd2ord_inj:
  assumes "1 \<le> m" "m \<le> 12" "1 \<le> d" "d \<le> days_in_month y m"
    and "1 \<le> m'" "m' \<le> 12" "1 \<le> d'" "d' \<le> days_in_month y' m'"
    and "ymd2ord y m d = ymd2ord y' m' d'"
  shows "y = y' \<and> m = m' \<and> d = d'"
proof -
  have y: "y = y'"
    using ymd2ord_less_year[OF assms(1-8)] ymd2ord_less_year[OF assms(5-8) assms(1-4)] assms(9)
    by (cases y y' rule: linorder_cases) simp_all
  have m: "m = m'"
    using ymd2ord_less_month[of m d y m' d'] ymd2ord_less_month[of m' d' y m d] assms y
    by (cases m m' rule: linorder_cases) simp_all
  from assms(9) y m have "d = d'"
    by (simp add: ymd2ord_def)
  with y m show ?thesis by simp
qed

text \<open>A valid timestamp is determined by its instant.\<close>

lemma utc_seconds_inj:
  assumes "valid_timestamp y m d hh mm ss" and "valid_timestamp y' m' d' hh' mm' ss'"
    and "utc_seconds y m d hh mm ss = utc_seconds y' m' d' hh' mm' ss'"
  shows "y = y' \<and> m = m' \<and> d = d' \<and> hh = hh' \<and> mm = mm' \<and> ss = ss'"
proof -
  define n n' where "n = ymd2ord y m d" and "n' = ymd2ord y' m' d'"
  define t t' where "t = hh * 3600 + mm * 60 + ss" and "t' = hh' * 3600 + mm' * 60 + ss'"
  have t: "0 \<le> t" "t < 86400" "0 \<le> t'" "t' < 86400"
    using assms(1,2) by (simp_all add: valid_timestamp_def t_def t'_def)
  have e: "n * 86400 + t = n' * 86400 + t'"
    using assms(3) by (simp add: utc_seconds_def n_def n'_def t_def t'_def algebra_simps)
  have n: "n = n'"
  proof (cases n n' rule: linorder_cases)
    case less
    then have "(n + 1) * 86400 \<le> n' * 86400" by simp
    with e t show ?thesis by (simp add: algebra_simps)
  next
    case greater
    then have "(n' + 1) * 86400 \<le> n * 86400" by simp
    with e t show ?thesis by (simp add: algebra_simps)
  qed
  with e have tt: "t = t'" by simp
  have ymd: "y = y' \<and> m = m' \<and> d = d'"
    using assms(1,2) n unfolding n_def n'_def valid_timestamp_def by (intro ymd2ord_inj) simp_all
  define u u' where "u = mm * 60 + ss" and "u' = mm' * 60 + ss'"
  have u: "0 \<le> u" "u < 3600" "0 \<le> u'" "u' < 3600"
    using assms(1,2) by (simp_all add: valid_timestamp_def u_def u'_def)
  have eu: "hh * 3600 + u = hh' * 3600 + u'"
    using tt by (simp add: t_def t'_def u_def u'_def)
  have h: "hh = hh'"
  proof (cases hh hh' rule: linorder_cases)
    case less
    then have "(hh + 1) * 3600 \<le> hh' * 3600" by simp
    with eu u show ?thesis by (simp add: algebra_simps)
  next
    case greater
    then have "(hh' + 1) * 3600 \<le> hh * 3600" by simp
    with eu u show ?thesis by (simp add: algebra_simps)
  qed
  with eu have uu: "mm * 60 + ss = mm' * 60 + ss'" by (simp add: u_def u'_def)
  have s: "0 \<le> ss" "ss < 60" "0 \<le> ss'" "ss' < 60"
    using assms(1,2) by (simp_all add: valid_timestamp_def)
  have mi: "mm = mm'"
  proof (cases mm mm' rule: linorder_cases)
    case less
    then have "(mm + 1) * 60 \<le> mm' * 60" by simp
    with uu s show ?thesis by (simp add: algebra_simps)
  next
    case greater
    then have "(mm' + 1) * 60 \<le> mm * 60" by simp
    with uu s show ?thesis by (simp add: algebra_simps)
  qed
  with uu have "ss = ss'" by simp
  with ymd h mi show ?thesis by simp
qed

text \<open>The ordinals of the dates that \<open>datetime\<close> has: 1 to \<open>MAXORDINAL\<close>.\<close>

lemma ymd2ord_bounds:
  assumes "1 \<le> y" "y \<le> 9999" "1 \<le> m" "m \<le> 12" "1 \<le> d" "d \<le> days_in_month y m"
  shows "1 \<le> ymd2ord y m d" and "ymd2ord y m d \<le> 3652059"
proof -
  have 1: "days_before_year 1 = 0" and 2: "days_before_year 10000 = 3652059"
    by (simp_all add: days_before_year_def)
  have "days_before_year 1 \<le> days_before_year y"
    using days_before_year_mono[of 1 y] assms(1) by simp
  then show "1 \<le> ymd2ord y m d"
    using day_of_year_bounds(1)[OF assms(3-6)] 1 by (simp add: ymd2ord_def)
  have "ymd2ord y m d \<le> days_before_year (y + 1)"
    using day_of_year_bounds(2)[OF assms(3-6)] by (simp add: ymd2ord_def days_before_year_step)
  also have "\<dots> \<le> days_before_year 10000"
    using days_before_year_mono[of "y + 1" 10000] assms(2) by simp
  finally show "ymd2ord y m d \<le> 3652059"
    using 2 by simp
qed

lemma ord2ymd_valid:
  assumes "1 \<le> n" "n \<le> MAXORDINAL"
  shows "case ord2ymd n of (y, m, dd) \<Rightarrow>
           1 \<le> y \<and> y \<le> 9999 \<and> 1 \<le> m \<and> m \<le> 12 \<and> 1 \<le> dd \<and> dd \<le> days_in_month y m
             \<and> ymd2ord y m dd = n"
proof -
  obtain y m dd where o: "ord2ymd n = (y, m, dd)"
    by (cases "ord2ymd n") auto
  with ord2ymd_spec[OF assms(1)]
  have s: "1 \<le> y" "1 \<le> m" "m \<le> 12" "1 \<le> dd" "dd \<le> days_in_month y m" "ymd2ord y m dd = n"
    by simp_all
  have "y \<le> 9999"
  proof (rule ccontr)
    assume "\<not> y \<le> 9999"
    then have "days_before_year 10000 \<le> days_before_year y"
      using days_before_year_mono[of 10000 y] by simp
    moreover have "days_before_year 10000 = 3652059"
      by (simp add: days_before_year_def)
    ultimately have "3652059 < ymd2ord y m dd"
      using day_of_year_bounds(1)[OF s(2-5)] by (simp add: ymd2ord_def)
    with s(6) assms(2) show False
      by (simp add: MAXORDINAL_def)
  qed
  with s o show ?thesis by simp
qed

lemma valid_timestamp_bounds:
  assumes "valid_timestamp y m d hh mm ss"
  shows "- 62135596800 \<le> utc_seconds y m d hh mm ss"
    and "utc_seconds y m d hh mm ss \<le> 253402300799"
proof -
  have n: "1 \<le> ymd2ord y m d" "ymd2ord y m d \<le> 3652059"
    using assms by (auto simp: valid_timestamp_def intro!: ymd2ord_bounds)
  have t: "0 \<le> hh * 3600 + mm * 60 + ss" "hh * 3600 + mm * 60 + ss \<le> 86399"
    using assms by (simp_all add: valid_timestamp_def)
  have "(1 - 719163) * 86400 \<le> (ymd2ord y m d - 719163) * 86400"
    using n(1) by simp
  with t(1) show "- 62135596800 \<le> utc_seconds y m d hh mm ss"
    by (simp add: utc_seconds_def)
  have "(ymd2ord y m d - 719163) * 86400 \<le> (3652059 - 719163) * 86400"
    using n(2) by simp
  with t(2) show "utc_seconds y m d hh mm ss \<le> 253402300799"
    by (simp add: utc_seconds_def)
qed

section \<open>Writing and reading digits\<close>

lemma digit_cases:
  fixes d :: int
  assumes "0 \<le> d" "d \<le> 9"
  shows "d = 0 \<or> d = 1 \<or> d = 2 \<or> d = 3 \<or> d = 4 \<or> d = 5 \<or> d = 6 \<or> d = 7 \<or> d = 8 \<or> d = 9"
  using assms by presburger

lemma digit_val_digit_char:
  assumes "0 \<le> d" "d \<le> 9"
  shows "digit_val (digit_char d) = Some d"
  using digit_cases[OF assms] by (elim disjE) (simp_all add: digit_val_def digit_char_def)

lemma digit_char_not_dash:
  assumes "0 \<le> d" "d \<le> 9"
  shows "digit_char d \<noteq> CHR ''-''"
  using digit_cases[OF assms] by (elim disjE) (simp_all add: digit_char_def)

lemma parse_pad2:
  assumes "0 \<le> n" "n \<le> 99"
  shows "parse_digits 0 (pad2 n) = Some n"
proof -
  have "0 \<le> n div 10" "n div 10 \<le> 9" "0 \<le> n mod 10" "n mod 10 \<le> 9"
    using assms by linarith+
  then show ?thesis
    by (simp add: pad2_def digit_val_digit_char)
qed

lemma parse_four_digits:
  assumes "0 \<le> a" "a \<le> 9" "0 \<le> b" "b \<le> 9" "0 \<le> c" "c \<le> 9" "0 \<le> d" "d \<le> 9"
  shows "parse_digits 0 [digit_char a, digit_char b, digit_char c, digit_char d]
     = Some (((a * 10 + b) * 10 + c) * 10 + d)"
  using assms by (simp add: digit_val_digit_char)

lemma parse_pad4:
  assumes "0 \<le> n" "n \<le> 9999"
  shows "parse_digits 0 (pad4 n) = Some n"
proof -
  have "0 \<le> n div 1000" "n div 1000 \<le> 9" "0 \<le> n div 100 mod 10" "n div 100 mod 10 \<le> 9"
    "0 \<le> n div 10 mod 10" "n div 10 mod 10 \<le> 9" "0 \<le> n mod 10" "n mod 10 \<le> 9"
    using assms by linarith+
  then have "parse_digits 0 (pad4 n)
      = Some (((n div 1000 * 10 + n div 100 mod 10) * 10 + n div 10 mod 10) * 10 + n mod 10)"
    unfolding pad4_def by (rule parse_four_digits)
  also have "((n div 1000 * 10 + n div 100 mod 10) * 10 + n div 10 mod 10) * 10 + n mod 10 = n"
  proof -
    have "n div (10 * 10) = n div 10 div 10" "n div (100 * 10) = n div 100 div 10"
      by (rule zdiv_zmult2_eq, simp)+
    then have "n div 100 = n div 10 div 10" "n div 1000 = n div 100 div 10"
      by simp_all
    then show ?thesis
      by (simp add: div_mult_mod_eq)
  qed
  finally show ?thesis .
qed

lemma parse_digits_append:
  "parse_digits acc (xs @ ys)
     = (case parse_digits acc xs of None \<Rightarrow> None | Some a \<Rightarrow> parse_digits a ys)"
  by (induction xs arbitrary: acc) (simp_all split: option.splits)

lemma parse_decimal: "0 \<le> n \<Longrightarrow> parse_digits 0 (decimal n) = Some n"
proof (induction n rule: decimal.induct)
  case (1 n)
  show ?case
  proof (cases "n < 10")
    case True
    with 1(2) show ?thesis
      by (subst decimal.simps) (simp add: digit_val_digit_char)
  next
    case False
    then have "parse_digits 0 (decimal (n div 10)) = Some (n div 10)"
      using 1 by simp
    moreover have "0 \<le> n mod 10" "n mod 10 \<le> 9" by linarith+
    ultimately show ?thesis
      using False by (subst decimal.simps) (simp add: parse_digits_append digit_val_digit_char)
  qed
qed

lemma decimal_no_dash: "0 \<le> n \<Longrightarrow> c \<in> set (decimal n) \<Longrightarrow> c \<noteq> CHR ''-''"
proof (induction n rule: decimal.induct)
  case (1 n)
  show ?case
  proof (cases "n < 10")
    case True
    with 1(2,3) show ?thesis
      by (subst (asm) decimal.simps) (auto simp: digit_char_not_dash)
  next
    case False
    have "0 \<le> n mod 10" "n mod 10 \<le> 9" by linarith+
    then have "digit_char (n mod 10) \<noteq> CHR ''-''" by (rule digit_char_not_dash)
    moreover have "c \<in> set (decimal (n div 10)) \<or> c = digit_char (n mod 10)"
      using 1(3) False by (subst (asm) decimal.simps) auto
    moreover have "0 \<le> n div 10"
      using 1(2) by linarith
    ultimately show ?thesis
      using 1(1)[OF False] by auto
  qed
qed

lemma decimal_not_empty: "decimal n \<noteq> []"
  by (subst decimal.simps) simp

lemma valid_timestamp_day:
  assumes "valid_timestamp y m d hh mm ss"
  shows "d \<le> 31"
proof -
  have "1 \<le> m" "m \<le> 12"
    using assms by (simp_all add: valid_timestamp_def)
  from month_cases[OF this] have "days_in_month y m \<le> 31"
    by (elim disjE; simp add: days_in_month_def DAYS_IN_MONTH_def)
  with assms show ?thesis by (simp add: valid_timestamp_def)
qed

lemma fromisoformat_isoformat:
  assumes "valid_timestamp y m d hh mm ss"
  shows "fromisoformat (isoformat y m d hh mm ss @ ''+00:00'')
     = Inr \<lparr>year = y, month = m, day = d, hour = hh, minute = mm, second = ss,
            utcoffset = 0, tzname = ''UTC''\<rparr>"
proof -
  have p: "parse_digits 0 (pad4 y) = Some y" "parse_digits 0 (pad2 m) = Some m"
    "parse_digits 0 (pad2 d) = Some d" "parse_digits 0 (pad2 hh) = Some hh"
    "parse_digits 0 (pad2 mm) = Some mm" "parse_digits 0 (pad2 ss) = Some ss"
    using assms valid_timestamp_day[OF assms]
    by (simp_all add: valid_timestamp_def parse_pad4 parse_pad2)
  obtain y1 y2 y3 y4 where y: "pad4 y = [y1, y2, y3, y4]" by (simp add: pad4_def)
  obtain m1 m2 where m: "pad2 m = [m1, m2]" by (simp add: pad2_def)
  obtain d1 d2 where d: "pad2 d = [d1, d2]" by (simp add: pad2_def)
  obtain h1 h2 where h: "pad2 hh = [h1, h2]" by (simp add: pad2_def)
  obtain n1 n2 where n: "pad2 mm = [n1, n2]" by (simp add: pad2_def)
  obtain s1 s2 where s: "pad2 ss = [s1, s2]" by (simp add: pad2_def)
  have "datetime_new y m d hh mm ss 0 ''UTC''
     = Inr \<lparr>year = y, month = m, day = d, hour = hh, minute = mm, second = ss,
            utcoffset = 0, tzname = ''UTC''\<rparr>"
    using assms by (simp add: datetime_new_def valid_timestamp_def)
  then show ?thesis
    using p unfolding fromisoformat_def isoformat_def y m d h n s Let_def
    by simp
qed

lemma parse_localized_strftime:
  assumes "valid_timestamp (year dt) (month dt) (day dt) (hour dt) (minute dt) (second dt)"
  shows "parse_localized (strftime dt)
     = Some (year dt, month dt, day dt, hour dt, minute dt, second dt, tzname dt)"
proof -
  have b: "0 \<le> year dt" "0 \<le> month dt" "month dt \<le> 99" "0 \<le> day dt" "day dt \<le> 99"
    "0 \<le> hour dt" "hour dt \<le> 99" "0 \<le> minute dt" "minute dt \<le> 99"
    "0 \<le> second dt" "second dt \<le> 99"
    using assms valid_timestamp_day[OF assms] by (simp_all add: valid_timestamp_def)
  obtain m1 m2 where m: "pad2 (month dt) = [m1, m2]" by (simp add: pad2_def)
  obtain d1 d2 where d: "pad2 (day dt) = [d1, d2]" by (simp add: pad2_def)
  obtain h1 h2 where h: "pad2 (hour dt) = [h1, h2]" by (simp add: pad2_def)
  obtain n1 n2 where n: "pad2 (minute dt) = [n1, n2]" by (simp add: pad2_def)
  obtain s1 s2 where s: "pad2 (second dt) = [s1, s2]" by (simp add: pad2_def)
  have p: "parse_digits 0 (decimal (year dt)) = Some (year dt)"
    "parse_digits 0 [m1, m2] = Some (month dt)" "parse_digits 0 [d1, d2] = Some (day dt)"
    "parse_digits 0 [h1, h2] = Some (hour dt)" "parse_digits 0 [n1, n2] = Some (minute dt)"
    "parse_digits 0 [s1, s2] = Some (second dt)"
    using b parse_decimal[of "year dt"] parse_pad2[of "month dt"] parse_pad2[of "day dt"]
      parse_pad2[of "hour dt"] parse_pad2[of "minute dt"] parse_pad2[of "second dt"]
    unfolding m d h n s by simp_all
  have nd: "\<And>c. c \<in> set (decimal (year dt)) \<Longrightarrow> c \<noteq> CHR ''-''"
    using b(1) by (rule decimal_no_dash)
  have t: "takeWhile (\<lambda>c. c \<noteq> CHR ''-'') (strftime dt) = decimal (year dt)"
    unfolding strftime_def using nd by (simp add: takeWhile_append2)
  have r: "dropWhile (\<lambda>c. c \<noteq> CHR ''-'') (strftime dt)
     = [CHR ''-'', m1, m2, CHR ''-'', d1, d2, CHR '' '', h1, h2, CHR '':'', n1, n2, CHR '':'', s1, s2, CHR '' '']
        @ tzname dt"
    unfolding strftime_def m d h n s using nd by (simp add: dropWhile_append2)
  show ?thesis
    unfolding parse_localized_def t r Let_def using p assms
    by (simp add: decimal_not_empty)
qed

section \<open>The zone and the conversion\<close>

lemma tz_abbreviations:
  "list_all (\<lambda>row. abbreviation_offset madrid_tz (snd (snd row)) = Some (fst (snd row))) madrid_tz"
  by code_simp

lemma tz_bounds:
  "list_all (\<lambda>row. fst row \<le> 2140045200 \<and> - 900 \<le> fst (snd row) \<and> fst (snd row) \<le> 7200) madrid_tz"
  by code_simp

lemma tz_last: "last madrid_tz = (2140045200, 3600, ''CET'')"
  by code_simp

lemma tz_first:
  "\<exists>rest. madrid_tz = (- 62135596800, - 900, ''LMT'') # (- 2147483648, 0, ''WET'') # rest"
  by (simp add: madrid_tz_def)

lemma tz_not_empty: "madrid_tz \<noteq> []"
  by (simp add: madrid_tz_def)

lemma dt_add_error: "dt_add dt k = Inl e \<Longrightarrow> e = OverflowError"
  by (auto simp: dt_add_def Let_def split: if_splits prod.splits)

text \<open>
  Adding seconds to a \<open>datetime\<close>: within the years 1 to 9999 the result is the date and
  time of the instant that many seconds later; beyond them the addition overflows.
\<close>

lemma dt_add_spec:
  assumes "- 62135596800 \<le> epoch_seconds dt + k" and "epoch_seconds dt + k \<le> 253402300799"
  shows "\<exists>local. dt_add dt k = Inr local \<and> epoch_seconds local = epoch_seconds dt + k
           \<and> valid_timestamp (year local) (month local) (day local)
               (hour local) (minute local) (second local)"
proof -
  define total where "total = hour dt * 3600 + minute dt * 60 + second dt + k"
  define days where "days = ymd2ord (year dt) (month dt) (day dt) + total div 86400"
  define secs where "secs = total mod 86400"
  have e: "epoch_seconds dt + k = (days - 719163) * 86400 + secs"
    unfolding epoch_seconds_def days_def secs_def total_def by (simp add: algebra_simps)
  have secs: "0 \<le> secs" "secs < 86400"
    by (simp_all add: secs_def)
  have "0 * 86400 < days * 86400"
    using assms(1) secs(2) unfolding e by simp
  then have "1 \<le> days"
    by simp
  moreover have "days * 86400 < 3652060 * 86400"
    using assms(2) secs(1) unfolding e by simp
  then have "days \<le> 3652059"
    by simp
  ultimately have days: "1 \<le> days" "days \<le> MAXORDINAL"
    by (simp_all add: MAXORDINAL_def)
  obtain y m d where o: "ord2ymd days = (y, m, d)"
    by (cases "ord2ymd days") auto
  with ord2ymd_valid[OF days]
  have ymd: "1 \<le> y" "y \<le> 9999" "1 \<le> m" "m \<le> 12" "1 \<le> d" "d \<le> days_in_month y m"
    "ymd2ord y m d = days"
    by simp_all
  define local where "local = dt\<lparr>year := y, month := m, day := d, hour := secs div 3600,
     minute := secs mod 3600 div 60, second := secs mod 3600 mod 60\<rparr>"
  have "dt_add dt k = Inr local"
    using days o unfolding dt_add_def Let_def local_def days_def secs_def total_def
    by simp
  moreover have "epoch_seconds local = epoch_seconds dt + k"
  proof -
    have "epoch_seconds local
        = (days - 719163) * 86400
          + (secs div 3600 * 3600 + secs mod 3600 div 60 * 60 + secs mod 3600 mod 60)"
      by (simp add: epoch_seconds_def local_def ymd)
    also have "secs div 3600 * 3600 + secs mod 3600 div 60 * 60 + secs mod 3600 mod 60 = secs"
      by (simp add: div_mult_mod_eq)
    finally show ?thesis
      by (simp only: e)
  qed
  moreover have "0 \<le> secs div 3600" "secs div 3600 \<le> 23" "0 \<le> secs mod 3600 div 60"
    "secs mod 3600 div 60 \<le> 59" "0 \<le> secs mod 3600 mod 60" "secs mod 3600 mod 60 \<le> 59"
    using secs by linarith+
  then have "valid_timestamp y m d (secs div 3600) (secs mod 3600 div 60) (secs mod 3600 mod 60)"
    using ymd unfolding valid_timestamp_def by (simp only: simp_thms)
  moreover have "year local = y" "month local = m" "day local = d" "hour local = secs div 3600"
    "minute local = secs mod 3600 div 60" "second local = secs mod 3600 mod 60"
    by (simp_all add: local_def)
  ultimately show ?thesis
    by (intro exI[of _ local]) (simp only: simp_thms)
qed

lemma dt_add_overflow:
  assumes "epoch_seconds dt + k < - 62135596800 \<or> 253402300799 < epoch_seconds dt + k"
  shows "dt_add dt k = Inl OverflowError"
proof -
  define total where "total = hour dt * 3600 + minute dt * 60 + second dt + k"
  define days where "days = ymd2ord (year dt) (month dt) (day dt) + total div 86400"
  define secs where "secs = total mod 86400"
  have e: "epoch_seconds dt + k = (days - 719163) * 86400 + secs"
    unfolding epoch_seconds_def days_def secs_def total_def by (simp add: algebra_simps)
  have secs: "0 \<le> secs" "secs < 86400"
    by (simp_all add: secs_def)
  have n: "\<not> (0 < days \<and> days \<le> MAXORDINAL)"
    using assms
  proof
    assume "epoch_seconds dt + k < - 62135596800"
    then have "days * 86400 < 1 * 86400"
      using secs(1) unfolding e by simp
    then have "days < 1" by simp
    then show ?thesis by simp
  next
    assume "253402300799 < epoch_seconds dt + k"
    then have "3652059 * 86400 < days * 86400"
      using secs(2) unfolding e by simp
    then have "3652059 < days" by simp
    then show ?thesis by (simp add: MAXORDINAL_def)
  qed
  show ?thesis
    unfolding dt_add_def Let_def by (simp only: n[unfolded days_def total_def] if_False)
qed

lemma fromutc_row:
  assumes "tz \<noteq> []"
  obtains row where "row \<in> set tz"
    and "fromutc tz dt =
      (case dt_add dt (fst (snd row)) of
         Inl e \<Rightarrow> Inl e
       | Inr local \<Rightarrow> Inr (local\<lparr>utcoffset := fst (snd row), tzname := snd (snd row)\<rparr>))"
    and "(\<forall>r\<in>set tz. fst r \<le> epoch_seconds dt) \<Longrightarrow> row = last tz"
    and "\<forall>r0 r1 rest. tz = r0 # r1 # rest \<longrightarrow> epoch_seconds dt < fst r1 \<longrightarrow> row = r0"
proof -
  define i where "i = nat (max 0 (int (bisect_right (map fst tz) (epoch_seconds dt)) - 1))"
  have "bisect_right (map fst tz) (epoch_seconds dt) \<le> length tz"
    using length_takeWhile_le[of "\<lambda>t. t \<le> epoch_seconds dt" "map fst tz"]
    by (simp add: bisect_right_def)
  with assms have i: "i < length tz"
    by (cases tz) (auto simp: i_def)
  have 1: "tz ! i \<in> set tz"
    using i by simp
  have 2: "fromutc tz dt =
      (case dt_add dt (fst (snd (tz ! i))) of
         Inl e \<Rightarrow> Inl e
       | Inr local \<Rightarrow> Inr (local\<lparr>utcoffset := fst (snd (tz ! i)), tzname := snd (snd (tz ! i))\<rparr>))"
    unfolding fromutc_def Let_def i_def by (rule refl)
  have 3: "tz ! i = last tz" if "\<forall>r\<in>set tz. fst r \<le> epoch_seconds dt"
  proof -
    have "takeWhile (\<lambda>t. t \<le> epoch_seconds dt) (map fst tz) = map fst tz"
      using that by (simp add: takeWhile_eq_all_conv)
    then have "bisect_right (map fst tz) (epoch_seconds dt) = length tz"
      unfolding bisect_right_def by (simp only: length_map)
    then have "i = length tz - 1"
      unfolding i_def by simp
    with assms show ?thesis
      by (simp add: last_conv_nth)
  qed
  have 4: "tz ! i = r0" if "tz = r0 # r1 # rest" "epoch_seconds dt < fst r1" for r0 r1 rest
  proof -
    have "bisect_right (map fst tz) (epoch_seconds dt) \<le> 1"
      using that by (simp add: bisect_right_def)
    then have "i = 0"
      unfolding i_def by simp
    with that(1) show ?thesis by simp
  qed
  from 4 have 5: "\<forall>r0 r1 rest. tz = r0 # r1 # rest \<longrightarrow> epoch_seconds dt < fst r1 \<longrightarrow> tz ! i = r0"
    by blast
  from 1 2 3 5 show ?thesis
    by (rule that)
qed

lemma astimezone_error: "astimezone tz dt = Inl e \<Longrightarrow> e = OverflowError"
  by (auto simp: astimezone_def fromutc_def Let_def split: sum.splits dest: dt_add_error)

lemma epoch_seconds_tzinfo [simp]:
  "epoch_seconds (dt\<lparr>utcoffset := off, tzname := name\<rparr>) = epoch_seconds dt"
  by (simp add: epoch_seconds_def)

text \<open>
  The conversion to Madrid time of a \<open>datetime\<close> of UTC. The offset in force is never
  below \<open>- 900\<close> seconds; before the first transition it is \<open>- 900\<close> and from the last one on
  it is 3600. So the local time is a date of \<open>datetime\<close> exactly from 0001-01-01T00:15:00 to
  9999-12-31T22:59:59 of UTC.
\<close>

lemma astimezone_madrid:
  assumes "- 62135595900 \<le> epoch_seconds dt" and "epoch_seconds dt \<le> 253402297199"
    and "utcoffset dt = 0"
  shows "\<exists>local. astimezone madrid_tz dt = Inr local
           \<and> epoch_seconds local = epoch_seconds dt + utcoffset local
           \<and> abbreviation_offset madrid_tz (tzname local) = Some (utcoffset local)
           \<and> valid_timestamp (year local) (month local) (day local)
               (hour local) (minute local) (second local)"
proof -
  have "- 62135596800 \<le> epoch_seconds dt + 0" "epoch_seconds dt + 0 \<le> 253402300799"
    using assms(1,2) by simp_all
  from dt_add_spec[OF this] obtain utc
    where utc0: "dt_add dt 0 = Inr utc" "epoch_seconds utc = epoch_seconds dt + 0"
    by blast
  then have utc: "dt_add dt 0 = Inr utc" "epoch_seconds utc = epoch_seconds dt"
    by simp_all
  obtain row where row: "row \<in> set madrid_tz"
    "fromutc madrid_tz utc =
      (case dt_add utc (fst (snd row)) of
         Inl e \<Rightarrow> Inl e
       | Inr local \<Rightarrow> Inr (local\<lparr>utcoffset := fst (snd row), tzname := snd (snd row)\<rparr>))"
    "(\<forall>r\<in>set madrid_tz. fst r \<le> epoch_seconds utc) \<Longrightarrow> row = last madrid_tz"
    "\<forall>r0 r1 rest. madrid_tz = r0 # r1 # rest \<longrightarrow> epoch_seconds utc < fst r1 \<longrightarrow> row = r0"
    by (rule fromutc_row[OF tz_not_empty, of utc]) (rule that)
  define off where "off = fst (snd row)"
  have b: "- 900 \<le> off" "off \<le> 7200"
    and ab: "abbreviation_offset madrid_tz (snd (snd row)) = Some off"
    and tr: "\<forall>r\<in>set madrid_tz. fst r \<le> 2140045200"
    using tz_bounds tz_abbreviations row(1) by (auto simp: list_all_iff off_def)
  have lo: "- 62135596800 \<le> epoch_seconds utc + off"
    using assms(1) b(1) utc(2) by simp
  have hi: "epoch_seconds utc + off \<le> 253402300799"
  proof (cases "2140045200 \<le> epoch_seconds utc")
    case True
    with tr have "\<forall>r\<in>set madrid_tz. fst r \<le> epoch_seconds utc"
      by fastforce
    then have "row = last madrid_tz" by (rule row(3))
    then have "off = 3600" by (simp add: off_def tz_last)
    with assms(2) utc(2) show ?thesis by simp
  next
    case False
    with b(2) show ?thesis by simp
  qed
  obtain local where local: "dt_add utc off = Inr local"
    "epoch_seconds local = epoch_seconds utc + off"
    "valid_timestamp (year local) (month local) (day local) (hour local) (minute local) (second local)"
    using dt_add_spec[OF lo hi] by blast
  have "astimezone madrid_tz dt = Inr (local\<lparr>utcoffset := off, tzname := snd (snd row)\<rparr>)"
    using utc(1) local(1) by (simp add: astimezone_def assms(3) row(2) off_def[symmetric])
  then show ?thesis
    using local utc(2) ab
    by (intro exI[of _ "local\<lparr>utcoffset := off, tzname := snd (snd row)\<rparr>"]) simp
qed

lemma astimezone_madrid_overflow:
  assumes "- 62135596800 \<le> epoch_seconds dt" and "epoch_seconds dt \<le> 253402300799"
    and "utcoffset dt = 0"
    and "epoch_seconds dt < - 62135595900 \<or> 253402297199 < epoch_seconds dt"
  shows "astimezone madrid_tz dt = Inl OverflowError"
proof -
  have "- 62135596800 \<le> epoch_seconds dt + 0" "epoch_seconds dt + 0 \<le> 253402300799"
    using assms(1,2) by simp_all
  from dt_add_spec[OF this] obtain utc
    where utc0: "dt_add dt 0 = Inr utc" "epoch_seconds utc = epoch_seconds dt + 0"
    by blast
  then have utc: "dt_add dt 0 = Inr utc" "epoch_seconds utc = epoch_seconds dt"
    by simp_all
  obtain row where row0: "row \<in> set madrid_tz" and row:
    "fromutc madrid_tz utc =
      (case dt_add utc (fst (snd row)) of
         Inl e \<Rightarrow> Inl e
       | Inr local \<Rightarrow> Inr (local\<lparr>utcoffset := fst (snd row), tzname := snd (snd row)\<rparr>))"
    "(\<forall>r\<in>set madrid_tz. fst r \<le> epoch_seconds utc) \<Longrightarrow> row = last madrid_tz"
    "\<forall>r0 r1 rest. madrid_tz = r0 # r1 # rest \<longrightarrow> epoch_seconds utc < fst r1 \<longrightarrow> row = r0"
    by (rule fromutc_row[OF tz_not_empty, of utc]) (rule that)
  have "epoch_seconds utc + fst (snd row) < - 62135596800
      \<or> 253402300799 < epoch_seconds utc + fst (snd row)"
    using assms(4)
  proof
    assume low: "epoch_seconds dt < - 62135595900"
    obtain rest where "madrid_tz = (- 62135596800, - 900, ''LMT'') # (- 2147483648, 0, ''WET'') # rest"
      using tz_first by blast
    moreover have "epoch_seconds utc < fst (- 2147483648 :: int, 0 :: int, ''WET'')"
      using low utc(2) by simp
    ultimately have "row = (- 62135596800, - 900, ''LMT'')"
      using row(3) by blast
    with low utc(2) show ?thesis by simp
  next
    assume high: "253402297199 < epoch_seconds dt"
    have "\<forall>r\<in>set madrid_tz. fst r \<le> 2140045200"
      using tz_bounds by (auto simp: list_all_iff)
    with high utc(2) have "\<forall>r\<in>set madrid_tz. fst r \<le> epoch_seconds utc"
      by fastforce
    then have "row = last madrid_tz" by (rule row(2))
    then have "fst (snd row) = 3600" by (simp add: tz_last)
    with high utc(2) show ?thesis by simp
  qed
  then have "dt_add utc (fst (snd row)) = Inl OverflowError"
    by (rule dt_add_overflow)
  then show ?thesis
    using utc(1) by (simp add: astimezone_def assms(3) row(1))
qed

lemma convert_to_spain_valid:
  assumes "valid_timestamp y m d hh mm ss"
    and "takeWhile (\<lambda>c. c \<noteq> CHR ''.'') s = isoformat y m d hh mm ss"
    and "- 62135595900 \<le> utc_seconds y m d hh mm ss"
    and "utc_seconds y m d hh mm ss \<le> 253402297199"
  shows "\<exists>out. convert_to_spain (JStr s) = Inr out
           \<and> localized_to_utc out = Some (utc_seconds y m d hh mm ss)"
proof -
  define dt where "dt = \<lparr>year = y, month = m, day = d, hour = hh, minute = mm, second = ss,
     utcoffset = 0, tzname = ''UTC''\<rparr>"
  have p: "fromisoformat (takeWhile (\<lambda>c. c \<noteq> CHR ''.'') s @ ''+00:00'') = Inr dt"
    unfolding assms(2) dt_def using assms(1) by (rule fromisoformat_isoformat)
  have e: "epoch_seconds dt = utc_seconds y m d hh mm ss" "utcoffset dt = 0"
    by (simp_all add: epoch_seconds_def utc_seconds_def dt_def)
  obtain local where local: "astimezone madrid_tz dt = Inr local"
    "epoch_seconds local = epoch_seconds dt + utcoffset local"
    "abbreviation_offset madrid_tz (tzname local) = Some (utcoffset local)"
    "valid_timestamp (year local) (month local) (day local) (hour local) (minute local) (second local)"
    using astimezone_madrid[of dt] assms(3,4) unfolding e by blast
  have c: "convert_to_spain (JStr s) = Inr (strftime local)"
    using p local(1) by (simp add: convert_to_spain_def)
  have "parse_localized (strftime local)
     = Some (year local, month local, day local, hour local, minute local, second local, tzname local)"
    using local(4) by (rule parse_localized_strftime)
  then have "localized_to_utc (strftime local) = Some (epoch_seconds local - utcoffset local)"
    using local(3) by (simp add: localized_to_utc_def utc_seconds_def epoch_seconds_def)
  with c local(2) e(1) show ?thesis
    by simp
qed

lemma convert_to_spain_overflow:
  assumes "valid_timestamp y m d hh mm ss"
    and "takeWhile (\<lambda>c. c \<noteq> CHR ''.'') s = isoformat y m d hh mm ss"
    and "utc_seconds y m d hh mm ss < - 62135595900 \<or> 253402297199 < utc_seconds y m d hh mm ss"
  shows "convert_to_spain (JStr s) = Inl OverflowError"
proof -
  define dt where "dt = \<lparr>year = y, month = m, day = d, hour = hh, minute = mm, second = ss,
     utcoffset = 0, tzname = ''UTC''\<rparr>"
  have p: "fromisoformat (takeWhile (\<lambda>c. c \<noteq> CHR ''.'') s @ ''+00:00'') = Inr dt"
    unfolding assms(2) dt_def using assms(1) by (rule fromisoformat_isoformat)
  have e: "epoch_seconds dt = utc_seconds y m d hh mm ss" "utcoffset dt = 0"
    by (simp_all add: epoch_seconds_def utc_seconds_def dt_def)
  have "astimezone madrid_tz dt = Inl OverflowError"
    using valid_timestamp_bounds[OF assms(1)] assms(3) e
    by (intro astimezone_madrid_overflow) simp_all
  with p show ?thesis
    by (simp add: convert_to_spain_def)
qed

section \<open>What the Time Localizer returns\<close>

text \<open>
  What holds of the localizer as a function of its argument: \<open>None\<close> gives \<open>N/A\<close>; it raises
  \<open>ValueError\<close>, the format error of \<open>fromisoformat\<close>, only when given a string that is not a
  valid truncated-ISO timestamp; and a valid one from 0001-01-01T00:15:00 to
  9999-12-31T22:59:59 is localized.
\<close>

lemma convert_to_spain_value_error:
  "convert_to_spain JNull = Inr ''N/A''
   \<and> (convert_to_spain v = Inl ValueError \<longrightarrow> (\<exists>s. v = JStr s \<and> \<not> valid_truncated_iso s))
   \<and> (valid_timestamp y m d hh mm ss
        \<and> takeWhile (\<lambda>c. c \<noteq> CHR ''.'') s = isoformat y m d hh mm ss
        \<and> - 62135595900 \<le> utc_seconds y m d hh mm ss
        \<and> utc_seconds y m d hh mm ss \<le> 253402297199 \<longrightarrow>
      (\<exists>out. convert_to_spain (JStr s) = Inr out))"
proof (intro conjI impI)
  show "convert_to_spain JNull = Inr ''N/A''"
    by (simp add: convert_to_spain_def)
next
  assume f: "convert_to_spain v = Inl ValueError"
  then obtain s where v: "v = JStr s"
    by (cases v) (simp_all add: convert_to_spain_def)
  have "\<not> valid_truncated_iso s"
  proof
    assume "valid_truncated_iso s"
    then obtain y m d hh mm ss where "valid_timestamp y m d hh mm ss"
      and "takeWhile (\<lambda>c. c \<noteq> CHR ''.'') s = isoformat y m d hh mm ss"
      unfolding valid_truncated_iso_def by blast
    then have "\<exists>dt. fromisoformat (takeWhile (\<lambda>c. c \<noteq> CHR ''.'') s @ ''+00:00'') = Inr dt"
      using fromisoformat_isoformat[of y m d hh mm ss] by simp
    then obtain dt where "fromisoformat (takeWhile (\<lambda>c. c \<noteq> CHR ''.'') s @ ''+00:00'') = Inr dt"
      by blast
    with f v have "astimezone madrid_tz dt = Inl ValueError"
      by (simp add: convert_to_spain_def split: sum.splits)
    then show False
      using astimezone_error by fastforce
  qed
  with v show "\<exists>s. v = JStr s \<and> \<not> valid_truncated_iso s"
    by blast
next
  assume "valid_timestamp y m d hh mm ss
        \<and> takeWhile (\<lambda>c. c \<noteq> CHR ''.'') s = isoformat y m d hh mm ss
        \<and> - 62135595900 \<le> utc_seconds y m d hh mm ss
        \<and> utc_seconds y m d hh mm ss \<le> 253402297199"
  then show "\<exists>out. convert_to_spain (JStr s) = Inr out"
    using convert_to_spain_valid[of y m d hh mm ss s] by blast
qed

text \<open>
  Claim C5, at the absent timestamp that the code does not handle: a table entry without
  the key \<open>lastSuccessfulUpdate\<close>. For it the reporter passes the default of \<open>table.get\<close>,
  the string \<open>'N/A'\<close>, and the localizer, which returns \<open>N/A\<close> for \<open>None\<close> only, raises
  \<open>ValueError\<close>, so the entry has no detail.
\<close>

theorem missing_timestamp_not_localized:
  "dict_get unsynced_table ''lastSuccessfulUpdate'' (JStr ''N/A'') = Inr (JStr ''N/A'')
   \<and> convert_to_spain (JStr ''N/A'') = Inl ValueError
   \<and> table_detail_of unsynced_table = Inl ValueError
   \<and> convert_to_spain JNull = Inr ''N/A''"
  by code_simp

text \<open>
  Claim C7, as stated, fails at the end of the range of \<open>datetime\<close>: the last half hour of
  the year 9999 is a valid timestamp, but its Madrid time is in the year 10000, and the
  localizer raises \<open>OverflowError\<close> instead of returning a string.
\<close>

theorem localizer_round_trip_counterexample:
  "valid_truncated_iso ''9999-12-31T23:30:00''
   \<and> convert_to_spain (JStr ''9999-12-31T23:30:00'') = Inl OverflowError"
proof -
  have "valid_timestamp 9999 12 31 23 30 0"
    "takeWhile (\<lambda>c. c \<noteq> CHR ''.'') ''9999-12-31T23:30:00'' = isoformat 9999 12 31 23 30 0"
    by code_simp+
  then have "valid_truncated_iso ''9999-12-31T23:30:00''"
    unfolding valid_truncated_iso_def by blast
  moreover have "convert_to_spain (JStr ''9999-12-31T23:30:00'') = Inl OverflowError"
    by code_simp
  ultimately show ?thesis by simp
qed

text \<open>
  Claim C7, amended. Take a valid truncated-ISO timestamp. If it is from
  0001-01-01T00:15:00 to 9999-12-31T22:59:59 (the instants \<open>- 62135595900\<close> and
  \<open>253402297199\<close>), the localizer returns a string, and that string read back (its fields,
  which are a date and a time, and the offset of its abbreviation in the zone) and
  converted to UTC is the instant of the timestamp without its fraction of a second. If
  it is outside that range, the localizer raises \<open>OverflowError\<close> and returns nothing.
  Instants are compared as Python compares aware \<open>datetime\<close> objects; by \<open>utc_seconds_inj\<close>
  the instant determines the six fields of a valid timestamp.
\<close>

theorem localizer_round_trip:
  assumes "valid_timestamp y m d hh mm ss"
    and "takeWhile (\<lambda>c. c \<noteq> CHR ''.'') s = isoformat y m d hh mm ss"
  shows "(- 62135595900 \<le> utc_seconds y m d hh mm ss \<and> utc_seconds y m d hh mm ss \<le> 253402297199 \<longrightarrow>
            (\<exists>out. convert_to_spain (JStr s) = Inr out
               \<and> localized_to_utc out = Some (utc_seconds y m d hh mm ss)))
       \<and> (utc_seconds y m d hh mm ss < - 62135595900 \<or> 253402297199 < utc_seconds y m d hh mm ss \<longrightarrow>
            convert_to_spain (JStr s) = Inl OverflowError)"
  using convert_to_spain_valid[OF assms] convert_to_spain_overflow[OF assms] by blast

theorem localizer_round_trip_witness:
  "utc_seconds 1 1 1 0 15 0 = - 62135595900 \<and> utc_seconds 9999 12 31 22 59 59 = 253402297199
   \<and> (\<exists>out. convert_to_spain (JStr ''2024-10-27T00:59:59.999'') = Inr out
         \<and> localized_to_utc out = Some (utc_seconds 2024 10 27 0 59 59))
   \<and> convert_to_spain (JStr ''0001-01-01T00:14:59'') = Inl OverflowError
   \<and> convert_to_spain (JStr ''9999-12-31T23:00:00.000'') = Inl OverflowError"
proof -
  have a: "valid_timestamp 2024 10 27 0 59 59"
    "takeWhile (\<lambda>c. c \<noteq> CHR ''.'') ''2024-10-27T00:59:59.999'' = isoformat 2024 10 27 0 59 59"
    by code_simp+
  have a': "- 62135595900 \<le> utc_seconds 2024 10 27 0 59 59 \<and> utc_seconds 2024 10 27 0 59 59 \<le> 253402297199"
    by code_simp
  have b: "valid_timestamp 1 1 1 0 14 59"
    "takeWhile (\<lambda>c. c \<noteq> CHR ''.'') ''0001-01-01T00:14:59'' = isoformat 1 1 1 0 14 59"
    by code_simp+
  have b': "utc_seconds 1 1 1 0 14 59 < - 62135595900 \<or> 253402297199 < utc_seconds 1 1 1 0 14 59"
    by code_simp
  have c: "valid_timestamp 9999 12 31 23 0 0"
    "takeWhile (\<lambda>c. c \<noteq> CHR ''.'') ''9999-12-31T23:00:00.000'' = isoformat 9999 12 31 23 0 0"
    by code_simp+
  have c': "utc_seconds 9999 12 31 23 0 0 < - 62135595900 \<or> 253402297199 < utc_seconds 9999 12 31 23 0 0"
    by code_simp
  have e: "utc_seconds 1 1 1 0 15 0 = - 62135595900" "utc_seconds 9999 12 31 22 59 59 = 253402297199"
    by code_simp+
  show ?thesis
    using localizer_round_trip[OF a] localizer_round_trip[OF b] localizer_round_trip[OF c] a' b' c' e
    by blast
qed

section \<open>The report of a successful refresh\<close>

lemma comprehension_Inr:
  "comprehension f xs = Inr ys \<longleftrightarrow> list_all2 (\<lambda>x y. f x = Inr y) xs ys"
proof (induction xs arbitrary: ys)
  case Nil
  then show ?case by auto
next
  case (Cons x xs)
  show ?case
    by (cases ys) (auto simp: Cons.IH[symmetric] split: sum.splits)
qed

lemma process_result_success:
  "process_result (success_payload tables) = Inr rep \<longleftrightarrow>
     logged rep = [] \<and> list_all2 (\<lambda>table detail. table_detail_of table = Inr detail) tables (printed rep)"
proof -
  have "process_result (success_payload tables)
      = (case comprehension table_detail_of tables of
           Inl e \<Rightarrow> Inl e
         | Inr table_details \<Rightarrow> Inr \<lparr>printed = table_details, logged = []\<rparr>)"
    by (simp add: process_result_def success_payload_def)
  then show ?thesis
    by (cases rep) (auto simp: comprehension_Inr[symmetric] split: sum.splits)
qed

end
